theory Spec2Isabelle
  imports Main
begin

section \<open>The word-game control bar (word-game-control-bar.tsx)\<close>

text \<open>
  The control bar is a React component with four state cells
  (\<open>isLoading\<close>, \<open>gameStarted\<close>, \<open>selectedLanguage\<close>, \<open>score\<close>), one effect that
  depends on \<open>room.state\<close>, and two asynchronous click handlers, \<open>handleStartGame\<close> and
  \<open>handleStopGame\<close>. Each handler contains exactly one \<open>await\<close>, on
  \<open>room.localParticipant.performRpc\<close>. A handler is therefore modelled in two parts: the
  synchronous part that runs up to the \<open>await\<close> (or to an earlier \<open>return\<close>), and the
  continuation that runs once the remote call has settled. State setters called in the
  same synchronous part are batched by React, so each part is one state transformer;
  React renders again before the next event is handled, so a handler reads the cells
  as the last event left them (\<open>useCallback\<close> lists \<open>isLoading\<close> and \<open>selectedLanguage\<close> among
  its dependencies).
  Strings of the source are \<open>string\<close>s here; the numbers of the score are only ever
  written as the literal \<open>0\<close>, and are naturals.
\<close>

subsection \<open>Data\<close>

record language_option =
  opt_value :: string
  opt_label :: string

definition LANGUAGES :: "language_option list" where
  "LANGUAGES =
    [\<lparr>opt_value = ''Portuguese'', opt_label = ''Portuguese''\<rparr>,
     \<lparr>opt_value = ''Spanish'', opt_label = ''Spanish''\<rparr>,
     \<lparr>opt_value = ''French'', opt_label = ''French''\<rparr>,
     \<lparr>opt_value = ''Italian'', opt_label = ''Italian''\<rparr>,
     \<lparr>opt_value = ''German'', opt_label = ''German''\<rparr>,
     \<lparr>opt_value = ''Belarusian'', opt_label = ''Belarusian''\<rparr>]"

record game_score =
  correct :: nat
  total :: nat

text \<open>The four \<open>useState\<close> cells of \<open>WordGameControlBar\<close>.\<close>

record control_bar =
  isLoading :: bool
  gameStarted :: bool
  selectedLanguage :: string
  score :: game_score

text \<open>The initial values given to \<open>useState\<close>.\<close>

definition initial_bar :: control_bar where
  "initial_bar =
    \<lparr>isLoading = False, gameStarted = False, selectedLanguage = ''Portuguese'',
     score = \<lparr>correct = 0, total = 0\<rparr>\<rparr>"

text \<open>
  A remote participant of the room, as far as the handlers read it; the room's
  \<open>remoteParticipants\<close> map is read through \<open>Array.from(....values())\<close>, a list in insertion
  order.
\<close>

record participant =
  identity :: string
  isAgent :: bool

text \<open>The argument of \<open>performRpc\<close>.\<close>

record rpc_params =
  destinationIdentity :: string
  rpc_method :: string
  payload :: string

text \<open>What a handler does to the outside: a remote call, or a line on the error console.\<close>

datatype effect =
    PerformRpc rpc_params
  | ConsoleError "string list"

text \<open>How the awaited promise of \<open>performRpc\<close> settles: with a response, or with an error.\<close>

datatype rpc_result =
    Resolved string
  | Rejected string

text \<open>Which handler is suspended at its \<open>await\<close>.\<close>

datatype continuation =
    AfterStartRpc
  | AfterStopRpc

text \<open>
  How a run of a handler part ends: it returned, it is suspended at the \<open>await\<close>, or an
  exception left it (the promise of the handler is rejected).
\<close>

datatype completion =
    Returned
  | Suspended continuation
  | Threw string

record handler_result =
  bar_of :: control_bar
  effects :: "effect list"
  completion_of :: completion

subsection \<open>The handlers\<close>

text \<open>\<open>Array.from(room.remoteParticipants.values()).find((p) => p.isAgent)\<close>\<close>

definition find_agent :: "participant list \<Rightarrow> participant option" where
  "find_agent ps = find isAgent ps"

text \<open>The \<open>finally\<close> block of both handlers: \<open>setIsLoading(false)\<close>.\<close>

definition finally_block :: "control_bar \<Rightarrow> control_bar" where
  "finally_block s = s\<lparr>isLoading := False\<rparr>"

text \<open>
  \<open>handleStartGame\<close> up to its \<open>await\<close>. The guard \<open>if (isLoading) return\<close> stands before the
  \<open>try\<close>, so the \<open>finally\<close> block does not run for it; the \<open>return\<close> of the no-agent branch
  is inside the \<open>try\<close>, so it does.
\<close>

definition handleStartGame :: "participant list \<Rightarrow> control_bar \<Rightarrow> handler_result" where
  "handleStartGame ps s =
    (if isLoading s then \<lparr>bar_of = s, effects = [], completion_of = Returned\<rparr>
     else
       let s1 = s\<lparr>isLoading := True\<rparr> in
       (case find_agent ps of
          None \<Rightarrow>
            \<lparr>bar_of = finally_block s1,
             effects = [ConsoleError [''No agent found in the room'']],
             completion_of = Returned\<rparr>
        | Some agent \<Rightarrow>
            \<lparr>bar_of = s1,
             effects = [PerformRpc \<lparr>destinationIdentity = identity agent,
                                   rpc_method = ''start_game'',
                                   payload = selectedLanguage s\<rparr>],
             completion_of = Suspended AfterStartRpc\<rparr>))"

definition handleStopGame :: "participant list \<Rightarrow> control_bar \<Rightarrow> handler_result" where
  "handleStopGame ps s =
    (if isLoading s then \<lparr>bar_of = s, effects = [], completion_of = Returned\<rparr>
     else
       let s1 = s\<lparr>isLoading := True\<rparr> in
       (case find_agent ps of
          None \<Rightarrow>
            \<lparr>bar_of = finally_block s1,
             effects = [ConsoleError [''No agent found in the room'']],
             completion_of = Returned\<rparr>
        | Some agent \<Rightarrow>
            \<lparr>bar_of = s1,
             effects = [PerformRpc \<lparr>destinationIdentity = identity agent,
                                   rpc_method = ''stop_game'',
                                   payload = ''''\<rparr>],
             completion_of = Suspended AfterStopRpc\<rparr>))"

text \<open>
  The rest of each \<open>try\<close> block, after the \<open>await\<close>: a rejected promise is rethrown by
  \<open>await\<close> (\<open>Inl\<close>), a resolved one lets the setters run.
\<close>

fun try_rest :: "continuation \<Rightarrow> rpc_result \<Rightarrow> control_bar \<Rightarrow> string + control_bar" where
  "try_rest k (Rejected err) s = Inl err"
| "try_rest AfterStartRpc (Resolved r) s =
     Inr (s\<lparr>gameStarted := True, score := \<lparr>correct = 0, total = 0\<rparr>\<rparr>)"
| "try_rest AfterStopRpc (Resolved r) s = Inr (s\<lparr>gameStarted := False\<rparr>)"

text \<open>The message of the \<open>catch\<close> block of each handler.\<close>

fun catch_message :: "continuation \<Rightarrow> string" where
  "catch_message AfterStartRpc = ''Failed to start game:''"
| "catch_message AfterStopRpc = ''Failed to stop game:''"

text \<open>
  The continuation of a suspended handler: the rest of the \<open>try\<close>, then \<open>catch\<close> (which logs
  and does not rethrow), then \<open>finally\<close>. The setters act on the state as it is when the
  continuation runs.
\<close>

definition resume :: "continuation \<Rightarrow> rpc_result \<Rightarrow> control_bar \<Rightarrow> handler_result" where
  "resume k r s =
    (case try_rest k r s of
       Inl err \<Rightarrow>
         \<lparr>bar_of = finally_block s,
          effects = [ConsoleError [catch_message k, err]],
          completion_of = Returned\<rparr>
     | Inr s' \<Rightarrow>
         \<lparr>bar_of = finally_block s', effects = [], completion_of = Returned\<rparr>)"

text \<open>
  A whole call of a handler whose remote call, if one is made, settles with \<open>r\<close> before
  anything else happens: the synchronous part, then the continuation.
\<close>

definition complete :: "rpc_result \<Rightarrow> handler_result \<Rightarrow> handler_result" where
  "complete r h =
    (case completion_of h of
       Suspended k \<Rightarrow>
         (let h' = resume k r (bar_of h)
          in h'\<lparr>effects := effects h @ effects h'\<rparr>)
     | _ \<Rightarrow> h)"

definition startGame :: "participant list \<Rightarrow> rpc_result \<Rightarrow> control_bar \<Rightarrow> handler_result" where
  "startGame ps r s = complete r (handleStartGame ps s)"

definition stopGame :: "participant list \<Rightarrow> rpc_result \<Rightarrow> control_bar \<Rightarrow> handler_result" where
  "stopGame ps r s = complete r (handleStopGame ps s)"

text \<open>\<open>onChange={(e) => setSelectedLanguage(e.target.value)}\<close>\<close>

definition selectLanguage :: "string \<Rightarrow> control_bar \<Rightarrow> control_bar" where
  "selectLanguage x s = s\<lparr>selectedLanguage := x\<rparr>"

text \<open>
  The body of the effect on \<open>room.state\<close>:
  \<open>if (room.state === 'disconnected') { setGameStarted(false); setScore({correct: 0, total: 0}) }\<close>.
\<close>

definition room_state_effect :: "string \<Rightarrow> control_bar \<Rightarrow> control_bar" where
  "room_state_effect st s =
    (if st = ''disconnected''
     then s\<lparr>gameStarted := False, score := \<lparr>correct = 0, total = 0\<rparr>\<rparr>
     else s)"

subsection \<open>The component in its room: events and steps\<close>

text \<open>
  The component lives in an event loop. The state of the whole is the four cells, the
  room as the component reads it (\<open>room.state\<close>, \<open>room.remoteParticipants\<close>), the handlers
  that are suspended at their \<open>await\<close> (one entry for each remote call that has been
  dispatched and has not settled yet), and the trace of all effects so far.
\<close>

record system =
  bar :: control_bar
  roomState :: string
  remoteParticipants :: "participant list"
  inflight :: "continuation list"
  trace :: "effect list"

datatype event =
    StartGame
  | StopGame
  | SelectLanguage string
  | RpcSettled rpc_result
  | RoomState string
  | Participants "participant list"

text \<open>
  The component as mounted: the initial cells; the effect on \<open>room.state\<close> runs once at
  mount.
\<close>

definition mount :: "string \<Rightarrow> participant list \<Rightarrow> system" where
  "mount st ps =
    \<lparr>bar = room_state_effect st initial_bar, roomState = st, remoteParticipants = ps,
     inflight = [], trace = []\<rparr>"

text \<open>Taking over what a handler part did: its state, its effects, its suspension.\<close>

definition absorb :: "handler_result \<Rightarrow> system \<Rightarrow> system" where
  "absorb h sys =
    sys\<lparr>bar := bar_of h,
        trace := trace sys @ effects h,
        inflight := inflight sys @
          (case completion_of h of Suspended k \<Rightarrow> [k] | _ \<Rightarrow> [])\<rparr>"

text \<open>
  One event. \<open>StartGame\<close> and \<open>StopGame\<close> call the handlers as they are, whatever the state.
  \<open>RpcSettled\<close> settles the oldest outstanding remote call and runs the continuation of
  its handler. \<open>RoomState\<close> is a render at which \<open>room.state\<close> has the given value: the
  effect runs when the value differs from the one of the render before.
\<close>

fun step :: "event \<Rightarrow> system \<Rightarrow> system" where
  "step StartGame sys = absorb (handleStartGame (remoteParticipants sys) (bar sys)) sys"
| "step StopGame sys = absorb (handleStopGame (remoteParticipants sys) (bar sys)) sys"
| "step (SelectLanguage x) sys = sys\<lparr>bar := selectLanguage x (bar sys)\<rparr>"
| "step (RpcSettled r) sys =
     (case inflight sys of
        [] \<Rightarrow> sys
      | k # ks \<Rightarrow> absorb (resume k r (bar sys)) (sys\<lparr>inflight := ks\<rparr>))"
| "step (RoomState st) sys =
     (if st = roomState sys then sys
      else sys\<lparr>roomState := st, bar := room_state_effect st (bar sys)\<rparr>)"
| "step (Participants ps) sys = sys\<lparr>remoteParticipants := ps\<rparr>"

fun run :: "event list \<Rightarrow> system \<Rightarrow> system" where
  "run [] sys = sys"
| "run (e # es) sys = run es (step e sys)"

text \<open>
  What the rendered controls let through. START GAME is rendered when \<open>!gameStarted\<close>, STOP
  GAME otherwise, both with \<open>disabled={isLoading}\<close>; the language selector is rendered when
  \<open>!gameStarted\<close>, with \<open>disabled={isLoading || gameStarted}\<close>, and offers the values of
  \<open>LANGUAGES\<close>. The other events come from the room, not from a control.
\<close>

fun enabled :: "event \<Rightarrow> control_bar \<Rightarrow> bool" where
  "enabled StartGame s = (\<not> gameStarted s \<and> \<not> isLoading s)"
| "enabled StopGame s = (gameStarted s \<and> \<not> isLoading s)"
| "enabled (SelectLanguage x) s =
     (\<not> gameStarted s \<and> \<not> (isLoading s \<or> gameStarted s) \<and> x \<in> set (map opt_value LANGUAGES))"
| "enabled (RpcSettled r) s = True"
| "enabled (RoomState st) s = True"
| "enabled (Participants ps) s = True"

definition ui_step :: "event \<Rightarrow> system \<Rightarrow> system" where
  "ui_step e sys = (if enabled e (bar sys) then step e sys else sys)"

fun ui_run :: "event list \<Rightarrow> system \<Rightarrow> system" where
  "ui_run [] sys = sys"
| "ui_run (e # es) sys = ui_run es (ui_step e sys)"

text \<open>
  At most one remote call is outstanding, and while one is, the busy flag is set.
\<close>

definition single_flight :: "system \<Rightarrow> bool" where
  "single_flight sys =
    (length (inflight sys) \<le> 1 \<and> (inflight sys = [] \<or> isLoading (bar sys)))"

text \<open>
  With the rendered controls in place, an outstanding start call was made while the game
  was not started, and an outstanding stop call while it was.
\<close>

fun gated :: "system \<Rightarrow> bool" where
  "gated sys =
    (case inflight sys of
       [] \<Rightarrow> \<not> isLoading (bar sys)
     | [AfterStartRpc] \<Rightarrow> isLoading (bar sys) \<and> \<not> gameStarted (bar sys)
     | [AfterStopRpc] \<Rightarrow> isLoading (bar sys) \<and> gameStarted (bar sys)
     | _ \<Rightarrow> False)"

text \<open>The event settles an outstanding call of the handler \<open>k\<close> successfully.\<close>

fun succeeds :: "continuation \<Rightarrow> event \<Rightarrow> system \<Rightarrow> bool" where
  "succeeds k (RpcSettled (Resolved r)) sys =
     (case inflight sys of [] \<Rightarrow> False | k' # ks \<Rightarrow> k' = k)"
| "succeeds k e sys = False"

fun is_RoomState :: "event \<Rightarrow> bool" where
  "is_RoomState (RoomState st) = True"
| "is_RoomState e = False"

fun is_SelectLanguage :: "event \<Rightarrow> bool" where
  "is_SelectLanguage (SelectLanguage x) = True"
| "is_SelectLanguage e = False"

definition score_ok :: "control_bar \<Rightarrow> bool" where
  "score_ok s = (correct (score s) \<le> total (score s))"

section \<open>The session view (word-game-session-view.tsx)\<close>

text \<open>
  The session view arms the liveness timer in an effect with the dependencies
  \<open>[agentState, sessionStarted, room]\<close>. \<open>room\<close> is created once by the application
  (\<open>useMemo(() => new Room(), [])\<close>) and never changes; \<open>sessionStarted\<close> is a prop and
  \<open>agentState\<close> comes from \<open>useVoiceAssistant\<close>. React runs the effect at mount and after
  each render in which a dependency has changed, the cleanup of the run before first.
  Time is counted in milliseconds, as \<open>setTimeout\<close> does: the delay of \<open>20_000\<close> is the
  specification's 20 time units.
\<close>

definition isAgentAvailable :: "string \<Rightarrow> bool" where
  "isAgentAvailable agentState =
    (agentState = ''listening'' \<or> agentState = ''thinking'' \<or> agentState = ''speaking'')"

text \<open>
  An armed timer of \<open>setTimeout\<close>: its handle, the time left, and the \<open>agentState\<close> that
  its callback has captured.
\<close>

record timeout =
  timer_id :: nat
  remaining :: nat
  captured :: string

datatype view_effect =
    ToastAlert string string
  | RoomDisconnect

record session_view =
  sessionStarted :: bool
  agentState :: string
  timers :: "timeout list"
  next_timer :: nat
  cleanup :: "nat option"

datatype view_event =
    SetSessionStarted bool
  | AgentStateChanged string
  | Elapse nat
  | Unmount

definition LIVENESS_MS :: nat where
  "LIVENESS_MS = 20000"

text \<open>
  The callback given to \<open>setTimeout\<close>; the toast is recorded with its title and the
  \<open>reason\<close> that starts its description.
\<close>

definition timeout_callback :: "string \<Rightarrow> view_effect list" where
  "timeout_callback a =
    (if \<not> isAgentAvailable a then
       (let reason =
          (if a = ''connecting'' then ''Agent did not join the room. ''
           else ''Agent connected but did not complete initializing. '')
        in [ToastAlert ''Session ended'' reason, RoomDisconnect])
     else [])"

definition clearTimeout :: "nat \<Rightarrow> timeout list \<Rightarrow> timeout list" where
  "clearTimeout i ts = filter (\<lambda>t. timer_id t \<noteq> i) ts"

text \<open>
  One run of the effect: the cleanup that the run before returned
  (\<open>() => clearTimeout(timeout)\<close>, if it returned one), then the body.
\<close>

definition run_effect :: "session_view \<Rightarrow> session_view" where
  "run_effect v =
    (let v1 = (case cleanup v of
                 None \<Rightarrow> v
               | Some i \<Rightarrow> v\<lparr>timers := clearTimeout i (timers v)\<rparr>)
     in if sessionStarted v1
        then v1\<lparr>timers := timers v1 @
                   [\<lparr>timer_id = next_timer v1, remaining = LIVENESS_MS,
                     captured = agentState v1\<rparr>],
                 next_timer := Suc (next_timer v1),
                 cleanup := Some (next_timer v1)\<rparr>
        else v1\<lparr>cleanup := None\<rparr>)"

definition view_mount :: "bool \<Rightarrow> string \<Rightarrow> session_view" where
  "view_mount started a =
    run_effect \<lparr>sessionStarted = started, agentState = a, timers = [], next_timer = 0,
                cleanup = None\<rparr>"

text \<open>
  Time passing: the timers that are due fire, in the order in which they were armed, and
  are gone; the others have less time left.
\<close>

definition elapse :: "nat \<Rightarrow> session_view \<Rightarrow> session_view \<times> view_effect list" where
  "elapse n v =
    (v\<lparr>timers := map (\<lambda>t. t\<lparr>remaining := remaining t - n\<rparr>)
                    (filter (\<lambda>t. n < remaining t) (timers v))\<rparr>,
     concat (map (\<lambda>t. timeout_callback (captured t))
                 (filter (\<lambda>t. remaining t \<le> n) (timers v))))"

fun view_step :: "view_event \<Rightarrow> session_view \<Rightarrow> session_view \<times> view_effect list" where
  "view_step (SetSessionStarted b) v =
     (if b = sessionStarted v then (v, []) else (run_effect (v\<lparr>sessionStarted := b\<rparr>), []))"
| "view_step (AgentStateChanged a) v =
     (if a = agentState v then (v, []) else (run_effect (v\<lparr>agentState := a\<rparr>), []))"
| "view_step (Elapse n) v = elapse n v"
| "view_step Unmount v =
     ((case cleanup v of
         None \<Rightarrow> v
       | Some i \<Rightarrow> v\<lparr>timers := clearTimeout i (timers v), cleanup := None\<rparr>), [])"

fun view_run :: "view_event list \<Rightarrow> session_view \<Rightarrow> session_view \<times> view_effect list" where
  "view_run [] v = (v, [])"
| "view_run (e # es) v =
     (let (v1, out1) = view_step e v; (v2, out2) = view_run es v1 in (v2, out1 @ out2))"

text \<open>
  The armed timers are the one that the last run of the effect armed, if it has not
  fired; its callback has captured the current \<open>agentState\<close>.
\<close>

definition in_sync :: "session_view \<Rightarrow> bool" where
  "in_sync v =
    (case timers v of
       [] \<Rightarrow> True
     | [t] \<Rightarrow> sessionStarted v \<and> cleanup v = Some (timer_id t) \<and>
              captured t = agentState v \<and> 0 < remaining t \<and> remaining t \<le> LIVENESS_MS
     | _ \<Rightarrow> False)"

section \<open>Example data\<close>

definition example_agent :: participant where
  "example_agent = \<lparr>identity = ''agent-AJ_x'', isAgent = True\<rparr>"

definition example_user :: participant where
  "example_user = \<lparr>identity = ''user-2'', isAgent = False\<rparr>"

text \<open>A control bar whose start call is outstanding, in a room that the agent has left.\<close>

definition example_busy :: system where
  "example_busy =
    run [StartGame, Participants [example_user]]
      (mount ''connected'' [example_user, example_agent])"

text \<open>A game that has been started, with no call outstanding.\<close>

definition example_started :: system where
  "example_started =
    run [StartGame, RpcSettled (Resolved [])] (mount ''connected'' [example_agent])"

text \<open>A game in French that is under way, two answers out of three correct.\<close>

definition example_scored :: system where
  "example_scored =
    \<lparr>bar = \<lparr>isLoading = False, gameStarted = True, selectedLanguage = ''French'',
            score = \<lparr>correct = 2, total = 3\<rparr>\<rparr>,
     roomState = ''connected'', remoteParticipants = [example_agent], inflight = [],
     trace = []\<rparr>"

text \<open>
  Two sessions of one page: in the first the room connects, the agent joins, the user
  selects French, plays and stops, and the room disconnects; in the second the room
  connects again and the agent joins.
\<close>

definition example_session_one :: "event list" where
  "example_session_one =
    [RoomState ''connecting'', RoomState ''connected'', Participants [example_agent],
     SelectLanguage ''French'', StartGame, RpcSettled (Resolved []),
     StopGame, RpcSettled (Resolved []), Participants [], RoomState ''disconnected'']"

definition example_session_two :: "event list" where
  "example_session_two =
    [RoomState ''connecting'', RoomState ''connected'', Participants [example_agent]]"

text \<open>
  A session that has been waiting for the agent for 15000 ms, the agent state being
  \<open>connecting\<close> all the time.
\<close>

definition example_waiting :: session_view where
  "example_waiting =
    fst (view_run [SetSessionStarted True, Elapse 15000] (view_mount False ''connecting''))"

text \<open>A session whose agent state has become \<open>listening\<close> 5000 ms after its start.\<close>

definition example_listening :: session_view where
  "example_listening =
    fst (view_run [SetSessionStarted True, Elapse 5000, AgentStateChanged ''listening'']
          (view_mount False ''connecting''))"

section \<open>Properties of the control bar\<close>

subsection \<open>Helper lemmas\<close>

lemma handleStartGame_busy:
  "isLoading s \<Longrightarrow>
     handleStartGame ps s = \<lparr>bar_of = s, effects = [], completion_of = Returned\<rparr>"
  by (simp add: handleStartGame_def)

lemma handleStopGame_busy:
  "isLoading s \<Longrightarrow>
     handleStopGame ps s = \<lparr>bar_of = s, effects = [], completion_of = Returned\<rparr>"
  by (simp add: handleStopGame_def)

lemma absorb_nothing:
  "absorb \<lparr>bar_of = bar sys, effects = [], completion_of = Returned\<rparr> sys = sys"
  by (simp add: absorb_def)

lemma step_busy:
  assumes "isLoading (bar sys)"
  shows "step StartGame sys = sys" and "step StopGame sys = sys"
  using assms by (simp_all add: handleStartGame_busy handleStopGame_busy absorb_nothing)

lemma resume_not_loading: "\<not> isLoading (bar_of (resume k r s))"
  by (cases "try_rest k r s") (simp_all add: resume_def finally_block_def)

lemma resume_returned: "completion_of (resume k r s) = Returned"
  by (cases "try_rest k r s") (simp_all add: resume_def)

lemma single_flight_step:
  assumes "single_flight sys"
  shows "single_flight (step e sys)"
proof (cases e)
  case StartGame
  show ?thesis
  proof (cases "isLoading (bar sys)")
    case True
    with assms StartGame show ?thesis by (simp add: step_busy del: step.simps)
  next
    case False
    with assms have "inflight sys = []" by (simp add: single_flight_def)
    with False StartGame show ?thesis
      by (cases "find_agent (remoteParticipants sys)")
         (simp_all add: single_flight_def absorb_def handleStartGame_def finally_block_def)
  qed
next
  case StopGame
  show ?thesis
  proof (cases "isLoading (bar sys)")
    case True
    with assms StopGame show ?thesis by (simp add: step_busy del: step.simps)
  next
    case False
    with assms have "inflight sys = []" by (simp add: single_flight_def)
    with False StopGame show ?thesis
      by (cases "find_agent (remoteParticipants sys)")
         (simp_all add: single_flight_def absorb_def handleStopGame_def finally_block_def)
  qed
next
  case (SelectLanguage x)
  with assms show ?thesis by (simp add: single_flight_def selectLanguage_def)
next
  case (RpcSettled r)
  show ?thesis
  proof (cases "inflight sys")
    case Nil
    with assms RpcSettled show ?thesis by simp
  next
    case (Cons k ks)
    with assms have "ks = []" by (simp add: single_flight_def)
    with Cons RpcSettled show ?thesis
      by (simp add: single_flight_def absorb_def resume_returned)
  qed
next
  case (RoomState st)
  with assms show ?thesis by (simp add: single_flight_def room_state_effect_def)
next
  case (Participants ps)
  with assms show ?thesis by (simp add: single_flight_def)
qed

lemma single_flight_run: "single_flight sys \<Longrightarrow> single_flight (run es sys)"
  by (induction es arbitrary: sys) (simp_all add: single_flight_step)

lemma single_flight_mount: "single_flight (mount st ps)"
  by (simp add: single_flight_def mount_def)

lemma find_agent_example: "find_agent [example_user, example_agent] = Some example_agent"
  by (simp add: find_agent_def example_user_def example_agent_def)

lemma example_busy_eq:
  "example_busy =
    \<lparr>bar = initial_bar\<lparr>isLoading := True\<rparr>, roomState = ''connected'',
     remoteParticipants = [example_user],
     inflight = [AfterStartRpc],
     trace = [PerformRpc \<lparr>destinationIdentity = ''agent-AJ_x'', rpc_method = ''start_game'',
                          payload = ''Portuguese''\<rparr>]\<rparr>"
  by (simp add: example_busy_def mount_def room_state_effect_def handleStartGame_def
      find_agent_def absorb_def initial_bar_def example_agent_def example_user_def Let_def)

subsection \<open>The reentrancy guard\<close>

text \<open>
  C1. In every state in which the busy flag is set, a call of \<open>handleStartGame\<close> or of
  \<open>handleStopGame\<close> returns at once: it has no effect (no remote call is dispatched),
  it does not suspend, and it leaves every cell (started flag, language, score, busy
  flag) as it was, so that the event changes nothing in the system. And at most one
  start or stop call is ever outstanding: from every state with at most one outstanding
  call and the busy flag set while one is outstanding (the mounted component is such a
  state), every sequence of events, the handlers called in any state, leads to a state
  with at most one outstanding call.
\<close>

theorem busy_guard_single_flight:
  "(isLoading (bar sys) \<longrightarrow>
      handleStartGame ps (bar sys) =
        \<lparr>bar_of = bar sys, effects = [], completion_of = Returned\<rparr> \<and>
      handleStopGame ps (bar sys) =
        \<lparr>bar_of = bar sys, effects = [], completion_of = Returned\<rparr> \<and>
      step StartGame sys = sys \<and> step StopGame sys = sys) \<and>
   (single_flight sys \<longrightarrow> length (inflight (run es sys)) \<le> 1) \<and>
   length (inflight (run es (mount st ps))) \<le> 1"
proof (intro conjI impI)
  assume busy: "isLoading (bar sys)"
  show "handleStartGame ps (bar sys) =
      \<lparr>bar_of = bar sys, effects = [], completion_of = Returned\<rparr>"
    using busy by (rule handleStartGame_busy)
  show "handleStopGame ps (bar sys) =
      \<lparr>bar_of = bar sys, effects = [], completion_of = Returned\<rparr>"
    using busy by (rule handleStopGame_busy)
  show "step StartGame sys = sys" using busy by (rule step_busy(1))
  show "step StopGame sys = sys" using busy by (rule step_busy(2))
next
  assume "single_flight sys"
  then have "single_flight (run es sys)" by (rule single_flight_run)
  then show "length (inflight (run es sys)) \<le> 1" by (simp add: single_flight_def)
next
  have "single_flight (run es (mount st ps))"
    using single_flight_mount by (rule single_flight_run)
  then show "length (inflight (run es (mount st ps))) \<le> 1" by (simp add: single_flight_def)
qed

theorem busy_guard_single_flight_witness:
  "isLoading (bar example_busy) \<and>
   effects (handleStartGame [example_agent] (bar example_busy)) = [] \<and>
   effects (handleStopGame [example_agent] (bar example_busy)) = [] \<and>
   step StartGame example_busy = example_busy \<and>
   step StopGame example_busy = example_busy \<and>
   single_flight example_busy \<and>
   length (inflight (run [StopGame, StartGame, RpcSettled (Resolved []), StopGame]
                      example_busy)) \<le> 1"
proof -
  have busy: "isLoading (bar example_busy)"
    by (simp add: example_busy_eq)
  have sf: "single_flight example_busy"
    by (simp add: example_busy_eq single_flight_def)
  show ?thesis
    using busy sf
      busy_guard_single_flight [of example_busy "[example_agent]"
        "[StopGame, StartGame, RpcSettled (Resolved []), StopGame]" "''connected''"]
    by (simp del: run.simps step.simps)
qed

subsection \<open>No agent in the room\<close>

lemma finally_restores: "\<not> isLoading s \<Longrightarrow> finally_block (s\<lparr>isLoading := True\<rparr>) = s"
  by (cases s) (simp add: finally_block_def)

lemma find_agent_None: "find_agent ps = None \<longleftrightarrow> (\<forall>p \<in> set ps. \<not> isAgent p)"
  by (auto simp: find_agent_def find_None_iff)

lemma handleStartGame_no_agent:
  assumes "find_agent ps = None" and "\<not> isLoading s"
  shows "handleStartGame ps s =
    \<lparr>bar_of = s, effects = [ConsoleError [''No agent found in the room'']],
     completion_of = Returned\<rparr>"
  using assms by (simp add: handleStartGame_def finally_restores)

lemma handleStopGame_no_agent:
  assumes "find_agent ps = None" and "\<not> isLoading s"
  shows "handleStopGame ps s =
    \<lparr>bar_of = s, effects = [ConsoleError [''No agent found in the room'']],
     completion_of = Returned\<rparr>"
  using assms by (simp add: handleStopGame_def finally_restores)

text \<open>
  C2, as stated, fails where the busy flag is set: the guard \<open>if (isLoading) return\<close>
  stands before the search for the agent, so a call made while another one is
  outstanding, in a room without an agent, returns without reporting anything. The state
  of the example is reached by a start call that is still outstanding when the agent
  leaves the room.
\<close>

theorem no_agent_while_busy_counterexample:
  "map isAgent (remoteParticipants example_busy) = [False] \<and>
   isLoading (bar example_busy) \<and>
   effects (handleStartGame (remoteParticipants example_busy) (bar example_busy)) = [] \<and>
   effects (handleStopGame (remoteParticipants example_busy) (bar example_busy)) = [] \<and>
   trace (step StartGame example_busy) = trace example_busy \<and>
   trace (step StopGame example_busy) = trace example_busy \<and>
   (\<forall>args. ConsoleError args \<notin> set (trace example_busy))"
  by (simp add: example_busy_eq example_user_def handleStartGame_def handleStopGame_def
      absorb_def)

text \<open>
  C2, amended. In a room whose remote participants contain no agent, a call of
  \<open>handleStartGame\<close> or of \<open>handleStopGame\<close> dispatches no remote call, returns (it neither
  suspends nor throws) and leaves all four cells as they were. When no call is
  outstanding (the busy flag is clear), the call fails with the no-agent error: its only
  effect is the console error \<open>No agent found in the room\<close>. When the busy flag is set it
  has no effect at all.
\<close>

theorem no_agent_present:
  assumes "\<forall>p \<in> set ps. \<not> isAgent p"
  shows "bar_of (handleStartGame ps s) = s \<and>
         bar_of (handleStopGame ps s) = s \<and>
         completion_of (handleStartGame ps s) = Returned \<and>
         completion_of (handleStopGame ps s) = Returned \<and>
         (\<forall>p. PerformRpc p \<notin> set (effects (handleStartGame ps s))) \<and>
         (\<forall>p. PerformRpc p \<notin> set (effects (handleStopGame ps s))) \<and>
         effects (handleStartGame ps s) =
           (if isLoading s then [] else [ConsoleError [''No agent found in the room'']]) \<and>
         effects (handleStopGame ps s) =
           (if isLoading s then [] else [ConsoleError [''No agent found in the room'']])"
proof -
  from assms have none: "find_agent ps = None" by (simp add: find_agent_None)
  show ?thesis
  proof (cases "isLoading s")
    case True
    then show ?thesis by (simp add: handleStartGame_busy handleStopGame_busy)
  next
    case False
    with none show ?thesis
      by (simp add: handleStartGame_no_agent handleStopGame_no_agent)
  qed
qed

theorem no_agent_present_witness:
  "map isAgent [example_user] = [False] \<and>
   \<not> isLoading initial_bar \<and>
   bar_of (handleStartGame [example_user] initial_bar) = initial_bar \<and>
   bar_of (handleStopGame [example_user] initial_bar) = initial_bar \<and>
   effects (handleStartGame [example_user] initial_bar) =
     [ConsoleError [''No agent found in the room'']] \<and>
   effects (handleStopGame [example_user] initial_bar) =
     [ConsoleError [''No agent found in the room'']]"
proof -
  have h: "\<forall>p \<in> set [example_user]. \<not> isAgent p"
    by (simp add: example_user_def)
  have h': "map isAgent [example_user] = [False]"
    by (simp add: example_user_def)
  have idle: "\<not> isLoading initial_bar"
    by (simp add: initial_bar_def)
  show ?thesis
    using h' idle no_agent_present [OF h, of initial_bar] by simp
qed

subsection \<open>Alternation of the started flag\<close>

lemma gated_cases:
  assumes "gated sys"
  obtains (idle) "inflight sys = []" "\<not> isLoading (bar sys)"
  | (starting) "inflight sys = [AfterStartRpc]" "isLoading (bar sys)" "\<not> gameStarted (bar sys)"
  | (stopping) "inflight sys = [AfterStopRpc]" "isLoading (bar sys)" "gameStarted (bar sys)"
  using assms by (auto split: list.splits continuation.splits)

lemma succeeds_iff:
  "succeeds k e sys \<longleftrightarrow> (\<exists>r ks. e = RpcSettled (Resolved r) \<and> inflight sys = k # ks)"
  by (cases "(k, e, sys)" rule: succeeds.cases) (auto split: list.splits)

lemma ui_step_idle:
  assumes "inflight sys = []" and "\<not> isLoading (bar sys)" and "\<not> is_RoomState e"
  shows "gated (ui_step e sys)"
    and "gameStarted (bar (ui_step e sys)) = gameStarted (bar sys)"
    and "score (bar (ui_step e sys)) = score (bar sys)"
    and "\<not> succeeds k e sys"
proof -
  show "\<not> succeeds k e sys"
    using assms(1) by (simp add: succeeds_iff)
  show "gated (ui_step e sys)"
    using assms
    by (cases e; cases "find_agent (remoteParticipants sys)")
       (simp_all add: ui_step_def absorb_def handleStartGame_def handleStopGame_def
          finally_block_def selectLanguage_def Let_def)
  show "gameStarted (bar (ui_step e sys)) = gameStarted (bar sys)"
    using assms
    by (cases e; cases "find_agent (remoteParticipants sys)")
       (simp_all add: ui_step_def absorb_def handleStartGame_def handleStopGame_def
          finally_block_def selectLanguage_def Let_def)
  show "score (bar (ui_step e sys)) = score (bar sys)"
    using assms
    by (cases e; cases "find_agent (remoteParticipants sys)")
       (simp_all add: ui_step_def absorb_def handleStartGame_def handleStopGame_def
          finally_block_def selectLanguage_def Let_def)
qed

lemma ui_step_busy_unsettled:
  assumes "isLoading (bar sys)" and "\<not> is_RoomState e" and "\<forall>r. e \<noteq> RpcSettled r"
  shows "bar (ui_step e sys) = bar sys" and "inflight (ui_step e sys) = inflight sys"
  using assms by (cases e; simp add: ui_step_def)+

lemma ui_step_settled:
  assumes "inflight sys = [k]"
  shows "inflight (ui_step (RpcSettled r) sys) = []"
    and "bar (ui_step (RpcSettled r) sys) = bar_of (resume k r (bar sys))"
  using assms by (simp_all add: ui_step_def absorb_def resume_returned)

lemma resume_start_ok:
  "bar_of (resume AfterStartRpc (Resolved r) s) =
     s\<lparr>gameStarted := True, score := \<lparr>correct = 0, total = 0\<rparr>, isLoading := False\<rparr>"
  by (simp add: resume_def finally_block_def)

lemma resume_stop_ok:
  "bar_of (resume AfterStopRpc (Resolved r) s) = s\<lparr>gameStarted := False, isLoading := False\<rparr>"
  by (simp add: resume_def finally_block_def)

lemma resume_rejected:
  "resume k (Rejected err) s =
     \<lparr>bar_of = s\<lparr>isLoading := False\<rparr>, effects = [ConsoleError [catch_message k, err]],
      completion_of = Returned\<rparr>"
  by (simp add: resume_def finally_block_def)

lemma ui_step_gated:
  assumes "gated sys" and "\<not> is_RoomState e"
  shows "gated (ui_step e sys)"
  using assms(1)
proof (cases rule: gated_cases)
  case idle
  then show ?thesis using assms(2) by (rule ui_step_idle(1))
next
  case starting
  show ?thesis
  proof (cases "\<exists>r. e = RpcSettled r")
    case True
    then obtain r where e: "e = RpcSettled r" by blast
    show ?thesis
      using starting ui_step_settled [of sys AfterStartRpc r]
      by (cases r) (simp_all add: e resume_start_ok resume_rejected)
  next
    case False
    with starting assms(2) show ?thesis
      using ui_step_busy_unsettled [of sys e] by simp
  qed
next
  case stopping
  show ?thesis
  proof (cases "\<exists>r. e = RpcSettled r")
    case True
    then obtain r where e: "e = RpcSettled r" by blast
    show ?thesis
      using stopping ui_step_settled [of sys AfterStopRpc r]
      by (cases r) (simp_all add: e resume_stop_ok resume_rejected)
  next
    case False
    with stopping assms(2) show ?thesis
      using ui_step_busy_unsettled [of sys e] by simp
  qed
qed

lemma ui_run_gated:
  "gated sys \<Longrightarrow> \<forall>e \<in> set es. \<not> is_RoomState e \<Longrightarrow> gated (ui_run es sys)"
  by (induction es arbitrary: sys) (simp_all add: ui_step_gated del: gated.simps)

lemma ui_step_alternates:
  assumes "gated sys" and "\<not> is_RoomState e"
  shows "(succeeds AfterStartRpc e sys \<longrightarrow>
            \<not> gameStarted (bar sys) \<and> gameStarted (bar (ui_step e sys))) \<and>
         (succeeds AfterStopRpc e sys \<longrightarrow>
            gameStarted (bar sys) \<and> \<not> gameStarted (bar (ui_step e sys))) \<and>
         (\<not> succeeds AfterStartRpc e sys \<and> \<not> succeeds AfterStopRpc e sys \<longrightarrow>
            gameStarted (bar (ui_step e sys)) = gameStarted (bar sys)) \<and>
         score (bar (ui_step e sys)) =
           (if \<not> gameStarted (bar sys) \<and> gameStarted (bar (ui_step e sys))
            then \<lparr>correct = 0, total = 0\<rparr> else score (bar sys))"
  using assms(1)
proof (cases rule: gated_cases)
  case idle
  with assms(2) show ?thesis
    using ui_step_idle(2-4) [of sys e] by simp
next
  case starting
  show ?thesis
  proof (cases "\<exists>r. e = RpcSettled r")
    case True
    then obtain r where e: "e = RpcSettled r" by blast
    show ?thesis
      using starting ui_step_settled [of sys AfterStartRpc r]
      by (cases r) (simp_all add: e succeeds_iff resume_start_ok resume_rejected)
  next
    case False
    with starting assms(2) show ?thesis
      using ui_step_busy_unsettled [of sys e] by (auto simp: succeeds_iff)
  qed
next
  case stopping
  show ?thesis
  proof (cases "\<exists>r. e = RpcSettled r")
    case True
    then obtain r where e: "e = RpcSettled r" by blast
    show ?thesis
      using stopping ui_step_settled [of sys AfterStopRpc r]
      by (cases r) (simp_all add: e succeeds_iff resume_stop_ok resume_rejected)
  next
    case False
    with stopping assms(2) show ?thesis
      using ui_step_busy_unsettled [of sys e] by (auto simp: succeeds_iff)
  qed
qed

lemma example_started_eq:
  "example_started =
    \<lparr>bar = initial_bar\<lparr>gameStarted := True\<rparr>, roomState = ''connected'',
     remoteParticipants = [example_agent], inflight = [],
     trace = [PerformRpc \<lparr>destinationIdentity = ''agent-AJ_x'', rpc_method = ''start_game'',
                          payload = ''Portuguese''\<rparr>]\<rparr>"
  by (simp add: example_started_def mount_def room_state_effect_def handleStartGame_def
      find_agent_def absorb_def initial_bar_def example_agent_def Let_def resume_def
      finally_block_def)

text \<open>
  C3, as stated, fails for the handlers as they are: \<open>handleStartGame\<close> does not read
  \<open>gameStarted\<close>, so a start call made while the game is started succeeds like any other.
  Here two start calls succeed one after the other; the second one finds the flag set
  and leaves it set, having dispatched a second \<open>start_game\<close>.
\<close>

theorem restart_while_started_counterexample:
  "gameStarted (bar example_started) \<and>
   succeeds AfterStartRpc (RpcSettled (Resolved [])) (step StartGame example_started) \<and>
   gameStarted (bar (run [StartGame, RpcSettled (Resolved [])] example_started)) \<and>
   trace (run [StartGame, RpcSettled (Resolved [])] example_started) =
     [PerformRpc \<lparr>destinationIdentity = ''agent-AJ_x'', rpc_method = ''start_game'',
                  payload = ''Portuguese''\<rparr>,
      PerformRpc \<lparr>destinationIdentity = ''agent-AJ_x'', rpc_method = ''start_game'',
                  payload = ''Portuguese''\<rparr>]"
  by (simp add: example_started_eq handleStartGame_def find_agent_def absorb_def
      initial_bar_def example_agent_def Let_def resume_def finally_block_def)

text \<open>
  C3, amended. The control bar renders START GAME only while the game is not started and
  STOP GAME only while it is, both disabled while the busy flag is set. For every
  sequence of start and stop clicks that pass these controls, of settlements of the
  remote calls, of language selections and of changes of the participants (no change of
  the room state: the effect on it is not a start or stop call), begun in a state in
  which an outstanding call agrees with the flags (the mounted component is one): a
  start call that succeeds finds the game not started and leaves it started; a stop call
  that succeeds finds it started and leaves it not started; no other step changes the
  flag, so the flag alternates strictly. The score is set to \<open>{correct: 0, total: 0}\<close> by
  exactly the steps that take the flag from not started to started, and no other step
  changes it. Apart from these sequences, when the room state becomes \<open>disconnected\<close>
  the flag is cleared and the score is reset.
\<close>

theorem gated_alternation:
  assumes "gated sys0" and "\<forall>x \<in> set es. \<not> is_RoomState x" and "\<not> is_RoomState e"
  shows "(succeeds AfterStartRpc e (ui_run es sys0) \<longrightarrow>
            \<not> gameStarted (bar (ui_run es sys0)) \<and>
            gameStarted (bar (ui_step e (ui_run es sys0)))) \<and>
         (succeeds AfterStopRpc e (ui_run es sys0) \<longrightarrow>
            gameStarted (bar (ui_run es sys0)) \<and>
            \<not> gameStarted (bar (ui_step e (ui_run es sys0)))) \<and>
         (\<not> succeeds AfterStartRpc e (ui_run es sys0) \<and>
          \<not> succeeds AfterStopRpc e (ui_run es sys0) \<longrightarrow>
            gameStarted (bar (ui_step e (ui_run es sys0))) =
            gameStarted (bar (ui_run es sys0))) \<and>
         score (bar (ui_step e (ui_run es sys0))) =
           (if \<not> gameStarted (bar (ui_run es sys0)) \<and>
               gameStarted (bar (ui_step e (ui_run es sys0)))
            then \<lparr>correct = 0, total = 0\<rparr> else score (bar (ui_run es sys0))) \<and>
         (roomState sys \<noteq> ''disconnected'' \<longrightarrow>
            bar (ui_step (RoomState ''disconnected'') sys) =
              (bar sys)\<lparr>gameStarted := False, score := \<lparr>correct = 0, total = 0\<rparr>\<rparr>)"
proof -
  from assms(1,2) have "gated (ui_run es sys0)" by (rule ui_run_gated)
  from this assms(3) have calls:
    "(succeeds AfterStartRpc e (ui_run es sys0) \<longrightarrow>
        \<not> gameStarted (bar (ui_run es sys0)) \<and>
        gameStarted (bar (ui_step e (ui_run es sys0)))) \<and>
     (succeeds AfterStopRpc e (ui_run es sys0) \<longrightarrow>
        gameStarted (bar (ui_run es sys0)) \<and>
        \<not> gameStarted (bar (ui_step e (ui_run es sys0)))) \<and>
     (\<not> succeeds AfterStartRpc e (ui_run es sys0) \<and>
      \<not> succeeds AfterStopRpc e (ui_run es sys0) \<longrightarrow>
        gameStarted (bar (ui_step e (ui_run es sys0))) =
        gameStarted (bar (ui_run es sys0))) \<and>
     score (bar (ui_step e (ui_run es sys0))) =
       (if \<not> gameStarted (bar (ui_run es sys0)) \<and>
           gameStarted (bar (ui_step e (ui_run es sys0)))
        then \<lparr>correct = 0, total = 0\<rparr> else score (bar (ui_run es sys0)))"
    by (rule ui_step_alternates)
  have "bar (ui_step (RoomState ''disconnected'') sys) =
      (bar sys)\<lparr>gameStarted := False, score := \<lparr>correct = 0, total = 0\<rparr>\<rparr>"
    if "roomState sys \<noteq> ''disconnected''"
    using that by (auto simp: ui_step_def room_state_effect_def)
  with calls show ?thesis by blast
qed

lemma example_scored_run:
  "ui_run [StopGame, RpcSettled (Resolved []), StartGame] example_scored =
    \<lparr>bar = \<lparr>isLoading = True, gameStarted = False, selectedLanguage = ''French'',
            score = \<lparr>correct = 2, total = 3\<rparr>\<rparr>,
     roomState = ''connected'', remoteParticipants = [example_agent],
     inflight = [AfterStartRpc],
     trace = [PerformRpc \<lparr>destinationIdentity = ''agent-AJ_x'', rpc_method = ''stop_game'',
                          payload = []\<rparr>,
              PerformRpc \<lparr>destinationIdentity = ''agent-AJ_x'', rpc_method = ''start_game'',
                          payload = ''French''\<rparr>]\<rparr>"
  by (simp add: example_scored_def ui_step_def handleStartGame_def handleStopGame_def
      find_agent_def absorb_def example_agent_def Let_def resume_def finally_block_def)

theorem gated_alternation_witness:
  "gated example_scored \<and>
   list_all (\<lambda>x. \<not> is_RoomState x) [StopGame, RpcSettled (Resolved []), StartGame] \<and>
   \<not> is_RoomState (RpcSettled (Resolved [])) \<and>
   succeeds AfterStartRpc (RpcSettled (Resolved []))
     (ui_run [StopGame, RpcSettled (Resolved []), StartGame] example_scored) \<and>
   score (bar (ui_run [StopGame, RpcSettled (Resolved []), StartGame] example_scored)) =
     \<lparr>correct = 2, total = 3\<rparr> \<and>
   \<not> gameStarted (bar (ui_run [StopGame, RpcSettled (Resolved []), StartGame] example_scored)) \<and>
   gameStarted (bar (ui_step (RpcSettled (Resolved []))
     (ui_run [StopGame, RpcSettled (Resolved []), StartGame] example_scored))) \<and>
   score (bar (ui_step (RpcSettled (Resolved []))
     (ui_run [StopGame, RpcSettled (Resolved []), StartGame] example_scored))) =
     \<lparr>correct = 0, total = 0\<rparr>"
proof -
  have g: "gated example_scored"
    by (simp add: example_scored_def)
  have es: "\<forall>x \<in> set [StopGame, RpcSettled (Resolved []), StartGame]. \<not> is_RoomState x"
    by simp
  have e: "\<not> is_RoomState (RpcSettled (Resolved []))"
    by simp
  have s: "succeeds AfterStartRpc (RpcSettled (Resolved []))
     (ui_run [StopGame, RpcSettled (Resolved []), StartGame] example_scored)"
    by (simp only: example_scored_run) simp
  have sc: "score (bar (ui_run [StopGame, RpcSettled (Resolved []), StartGame] example_scored)) =
     \<lparr>correct = 2, total = 3\<rparr>"
    by (simp only: example_scored_run) simp
  show ?thesis
    using g s sc gated_alternation [OF g es e]
    by (simp del: ui_run.simps succeeds.simps gated.simps)
qed

subsection \<open>The payload of the start call\<close>

lemma handleStartGame_dispatch:
  assumes "\<not> isLoading s" and "find_agent ps = Some a"
  shows "handleStartGame ps s =
    \<lparr>bar_of = s\<lparr>isLoading := True\<rparr>,
     effects = [PerformRpc \<lparr>destinationIdentity = identity a, rpc_method = ''start_game'',
                            payload = selectedLanguage s\<rparr>],
     completion_of = Suspended AfterStartRpc\<rparr>"
  using assms by (simp add: handleStartGame_def)

lemma handleStopGame_dispatch:
  assumes "\<not> isLoading s" and "find_agent ps = Some a"
  shows "handleStopGame ps s =
    \<lparr>bar_of = s\<lparr>isLoading := True\<rparr>,
     effects = [PerformRpc \<lparr>destinationIdentity = identity a, rpc_method = ''stop_game'',
                            payload = []\<rparr>],
     completion_of = Suspended AfterStopRpc\<rparr>"
  using assms by (simp add: handleStopGame_def)

lemma LANGUAGES_values:
  "set (map opt_value LANGUAGES) =
     {''Portuguese'', ''Spanish'', ''French'', ''Italian'', ''German'', ''Belarusian''}"
  by (simp add: LANGUAGES_def)

text \<open>
  C6. The values that the selector offers are the six names Portuguese, Spanish, French,
  Italian, German and Belarusian. For each of them, \<open>x\<close>: after \<open>selectLanguage x\<close>, a start
  call that gets as far as the remote call (the busy flag is clear and the room has an
  agent) dispatches exactly one remote call, to the first agent of the room, with the
  method \<open>start_game\<close> and a payload equal to \<open>x\<close>; and when that call succeeds nothing
  else is dispatched.
\<close>

theorem selected_language_is_payload:
  "set (map opt_value LANGUAGES) =
     {''Portuguese'', ''Spanish'', ''French'', ''Italian'', ''German'', ''Belarusian''} \<and>
   (\<forall>x \<in> set (map opt_value LANGUAGES).
      \<not> isLoading s \<and> find_agent ps = Some a \<longrightarrow>
        effects (handleStartGame ps (selectLanguage x s)) =
          [PerformRpc \<lparr>destinationIdentity = identity a, rpc_method = ''start_game'',
                       payload = x\<rparr>] \<and>
        effects (startGame ps (Resolved r) (selectLanguage x s)) =
          [PerformRpc \<lparr>destinationIdentity = identity a, rpc_method = ''start_game'',
                       payload = x\<rparr>])"
proof (intro conjI ballI impI)
  show "set (map opt_value LANGUAGES) =
     {''Portuguese'', ''Spanish'', ''French'', ''Italian'', ''German'', ''Belarusian''}"
    by (rule LANGUAGES_values)
next
  fix x
  assume "\<not> isLoading s \<and> find_agent ps = Some a"
  then have idle: "\<not> isLoading (selectLanguage x s)" and agent: "find_agent ps = Some a"
    by (simp_all add: selectLanguage_def)
  have lang: "selectedLanguage (selectLanguage x s) = x"
    by (simp add: selectLanguage_def)
  show "effects (handleStartGame ps (selectLanguage x s)) =
      [PerformRpc \<lparr>destinationIdentity = identity a, rpc_method = ''start_game'',
                   payload = x\<rparr>]"
    by (simp add: handleStartGame_dispatch [OF idle agent] lang)
  show "effects (startGame ps (Resolved r) (selectLanguage x s)) =
      [PerformRpc \<lparr>destinationIdentity = identity a, rpc_method = ''start_game'',
                   payload = x\<rparr>]"
    by (simp add: startGame_def complete_def handleStartGame_dispatch [OF idle agent] lang
        resume_def)
qed

theorem selected_language_is_payload_witness:
  "''Belarusian'' \<in> set (map opt_value LANGUAGES) \<and>
   \<not> isLoading initial_bar \<and>
   find_agent [example_user, example_agent] = Some example_agent \<and>
   effects (handleStartGame [example_user, example_agent]
              (selectLanguage ''Belarusian'' initial_bar)) =
     [PerformRpc \<lparr>destinationIdentity = ''agent-AJ_x'', rpc_method = ''start_game'',
                  payload = ''Belarusian''\<rparr>]"
proof -
  have x: "''Belarusian'' \<in> set (map opt_value LANGUAGES)"
    by (simp add: LANGUAGES_def)
  have idle: "\<not> isLoading initial_bar"
    by (simp add: initial_bar_def)
  have agent: "find_agent [example_user, example_agent] = Some example_agent"
    by (rule find_agent_example)
  have name: "identity example_agent = ''agent-AJ_x''"
    by (simp add: example_agent_def)
  from selected_language_is_payload
    [of initial_bar "[example_user, example_agent]" example_agent "[]"]
  have "\<forall>x \<in> set (map opt_value LANGUAGES).
      \<not> isLoading initial_bar \<and>
      find_agent [example_user, example_agent] = Some example_agent \<longrightarrow>
        effects (handleStartGame [example_user, example_agent] (selectLanguage x initial_bar)) =
          [PerformRpc \<lparr>destinationIdentity = identity example_agent,
                       rpc_method = ''start_game'', payload = x\<rparr>]"
    by blast
  from bspec [OF this x] x idle agent name show ?thesis by simp
qed

subsection \<open>A remote call that fails\<close>

text \<open>
  C7. When the remote call of a start or stop call is rejected, the continuation of the
  handler catches the error: it logs it, returns (nothing is thrown out of the handler)
  and clears the busy flag, whatever the state is when it runs, and changes no other
  cell. For the whole call, made with the busy flag clear in a room with an agent: it
  returns, its effects are the remote call and the console error of its \<open>catch\<close> block,
  and all four cells (started flag, score, language, busy flag) are as they were before
  the call.
\<close>

theorem rpc_failure_atomic:
  "resume k (Rejected err) s' =
     \<lparr>bar_of = s'\<lparr>isLoading := False\<rparr>,
      effects = [ConsoleError [catch_message k, err]],
      completion_of = Returned\<rparr> \<and>
   (\<not> isLoading s \<and> find_agent ps = Some a \<longrightarrow>
      startGame ps (Rejected err) s =
        \<lparr>bar_of = s,
         effects = [PerformRpc \<lparr>destinationIdentity = identity a,
                                rpc_method = ''start_game'', payload = selectedLanguage s\<rparr>,
                    ConsoleError [''Failed to start game:'', err]],
         completion_of = Returned\<rparr> \<and>
      stopGame ps (Rejected err) s =
        \<lparr>bar_of = s,
         effects = [PerformRpc \<lparr>destinationIdentity = identity a,
                                rpc_method = ''stop_game'', payload = []\<rparr>,
                    ConsoleError [''Failed to stop game:'', err]],
         completion_of = Returned\<rparr>)"
proof (intro conjI impI)
  show "resume k (Rejected err) s' =
     \<lparr>bar_of = s'\<lparr>isLoading := False\<rparr>,
      effects = [ConsoleError [catch_message k, err]],
      completion_of = Returned\<rparr>"
    by (rule resume_rejected)
next
  assume "\<not> isLoading s \<and> find_agent ps = Some a"
  then have idle: "\<not> isLoading s" and agent: "find_agent ps = Some a"
    by simp_all
  have restored: "s\<lparr>isLoading := True\<rparr>\<lparr>isLoading := False\<rparr> = s"
    using finally_restores [OF idle] by (simp add: finally_block_def)
  show "startGame ps (Rejected err) s =
        \<lparr>bar_of = s,
         effects = [PerformRpc \<lparr>destinationIdentity = identity a,
                                rpc_method = ''start_game'', payload = selectedLanguage s\<rparr>,
                    ConsoleError [''Failed to start game:'', err]],
         completion_of = Returned\<rparr>"
    using restored
    by (simp add: startGame_def complete_def handleStartGame_dispatch [OF idle agent]
        resume_rejected)
  show "stopGame ps (Rejected err) s =
        \<lparr>bar_of = s,
         effects = [PerformRpc \<lparr>destinationIdentity = identity a,
                                rpc_method = ''stop_game'', payload = []\<rparr>,
                    ConsoleError [''Failed to stop game:'', err]],
         completion_of = Returned\<rparr>"
    using restored
    by (simp add: stopGame_def complete_def handleStopGame_dispatch [OF idle agent]
        resume_rejected)
qed

theorem rpc_failure_atomic_witness:
  "\<not> isLoading (bar example_scored) \<and>
   find_agent (remoteParticipants example_scored) = Some example_agent \<and>
   bar_of (startGame (remoteParticipants example_scored) (Rejected ''Response timeout'')
     (bar example_scored)) = bar example_scored \<and>
   bar_of (stopGame (remoteParticipants example_scored) (Rejected ''Response timeout'')
     (bar example_scored)) = bar example_scored \<and>
   completion_of (stopGame (remoteParticipants example_scored) (Rejected ''Response timeout'')
     (bar example_scored)) = Returned"
proof -
  have idle: "\<not> isLoading (bar example_scored)"
    by (simp add: example_scored_def)
  have agent: "find_agent (remoteParticipants example_scored) = Some example_agent"
    by (simp add: example_scored_def find_agent_def example_agent_def)
  show ?thesis
    using idle agent
      rpc_failure_atomic [of AfterStartRpc "''Response timeout''" "bar example_scored"
        "bar example_scored" "remoteParticipants example_scored" example_agent]
    by simp
qed

subsection \<open>The score\<close>

lemma score_resume:
  "score (bar_of (resume k r s)) = score s \<or>
   score (bar_of (resume k r s)) = \<lparr>correct = 0, total = 0\<rparr>"
  by (cases k; cases r) (simp_all add: resume_def finally_block_def)

lemma score_handleStartGame: "score (bar_of (handleStartGame ps s)) = score s"
  by (cases "find_agent ps") (simp_all add: handleStartGame_def finally_block_def)

lemma score_handleStopGame: "score (bar_of (handleStopGame ps s)) = score s"
  by (cases "find_agent ps") (simp_all add: handleStopGame_def finally_block_def)

lemma score_step:
  "score (bar (step e sys)) = score (bar sys) \<or>
   score (bar (step e sys)) = \<lparr>correct = 0, total = 0\<rparr>"
proof (cases e)
  case StartGame
  then show ?thesis by (simp add: absorb_def score_handleStartGame)
next
  case StopGame
  then show ?thesis by (simp add: absorb_def score_handleStopGame)
next
  case (SelectLanguage x)
  then show ?thesis by (simp add: selectLanguage_def)
next
  case (RpcSettled r)
  then show ?thesis
    using score_resume by (cases "inflight sys") (simp_all add: absorb_def)
next
  case (RoomState st)
  then show ?thesis by (simp add: room_state_effect_def)
next
  case (Participants ps)
  then show ?thesis by simp
qed

lemma score_ok_step: "score_ok (bar sys) \<Longrightarrow> score_ok (bar (step e sys))"
  using score_step [of e sys] by (auto simp: score_ok_def)

lemma score_ok_run: "score_ok (bar sys) \<Longrightarrow> score_ok (bar (run es sys))"
  by (induction es arbitrary: sys) (simp_all add: score_ok_step)

lemma score_ok_mount: "score_ok (bar (mount st ps))"
  by (simp add: score_ok_def mount_def room_state_effect_def initial_bar_def)

text \<open>
  C8. In every state that a sequence of events (start and stop calls made in any state,
  settlements of the remote calls, language selections, changes of the room state with
  the reset on disconnection, changes of the participants) reaches from the mounted
  component, \<open>score.correct \<le> score.total\<close>; and the events keep it: from any state in
  which it holds, every sequence of events leads to a state in which it holds.
\<close>

theorem score_correct_le_total:
  "correct (score (bar (run es (mount st ps)))) \<le> total (score (bar (run es (mount st ps)))) \<and>
   (correct (score (bar sys)) \<le> total (score (bar sys)) \<longrightarrow>
      correct (score (bar (run es sys))) \<le> total (score (bar (run es sys))))"
proof (intro conjI impI)
  have "score_ok (bar (run es (mount st ps)))"
    using score_ok_mount by (rule score_ok_run)
  then show "correct (score (bar (run es (mount st ps)))) \<le>
      total (score (bar (run es (mount st ps))))"
    by (simp add: score_ok_def)
next
  assume "correct (score (bar sys)) \<le> total (score (bar sys))"
  then have "score_ok (bar sys)" by (simp add: score_ok_def)
  then have "score_ok (bar (run es sys))" by (rule score_ok_run)
  then show "correct (score (bar (run es sys))) \<le> total (score (bar (run es sys)))"
    by (simp add: score_ok_def)
qed

theorem score_correct_le_total_witness:
  "correct (score (bar example_scored)) \<le> total (score (bar example_scored)) \<and>
   correct (score (bar (run [StopGame, RoomState ''disconnected'', RpcSettled (Resolved [])]
     example_scored))) \<le>
   total (score (bar (run [StopGame, RoomState ''disconnected'', RpcSettled (Resolved [])]
     example_scored)))"
proof -
  have h: "correct (score (bar example_scored)) \<le> total (score (bar example_scored))"
    by (simp add: example_scored_def)
  show ?thesis
    using h score_correct_le_total
      [of "[StopGame, RoomState ''disconnected'', RpcSettled (Resolved [])]"
        "''connected''" "[]" example_scored]
    by (simp del: run.simps)
qed

subsection \<open>What a stop call leaves alone\<close>

lemma no_start_step:
  assumes "AfterStartRpc \<notin> set (inflight sys)" and "e \<noteq> StartGame"
    and "e \<noteq> RoomState ''disconnected''"
  shows "AfterStartRpc \<notin> set (inflight (step e sys))"
    and "score (bar (step e sys)) = score (bar sys)"
proof -
  show "AfterStartRpc \<notin> set (inflight (step e sys))"
    using assms
  proof (cases e)
    case StopGame
    with assms(1) show ?thesis
      by (cases "find_agent (remoteParticipants sys)")
         (simp_all add: absorb_def handleStopGame_def)
  next
    case (RpcSettled r)
    with assms(1) show ?thesis
      by (cases "inflight sys") (simp_all add: absorb_def resume_returned)
  qed simp_all
  show "score (bar (step e sys)) = score (bar sys)"
    using assms
  proof (cases e)
    case StopGame
    then show ?thesis by (simp add: absorb_def score_handleStopGame)
  next
    case (RpcSettled r)
    show ?thesis
    proof (cases "inflight sys")
      case Nil
      with RpcSettled show ?thesis by simp
    next
      case (Cons k ks)
      with assms(1) have "k = AfterStopRpc" by (cases k) simp_all
      with Cons RpcSettled show ?thesis
        by (cases r) (simp_all add: absorb_def resume_def finally_block_def)
    qed
  qed (auto simp: selectLanguage_def room_state_effect_def)
qed

lemma no_start_run:
  assumes "AfterStartRpc \<notin> set (inflight sys)"
    and "\<forall>e \<in> set es. e \<noteq> StartGame \<and> e \<noteq> RoomState ''disconnected''"
  shows "score (bar (run es sys)) = score (bar sys)"
  using assms
proof (induction es arbitrary: sys)
  case Nil
  then show ?case by simp
next
  case (Cons e es)
  then have e: "e \<noteq> StartGame" "e \<noteq> RoomState ''disconnected''"
    and es: "\<forall>x \<in> set es. x \<noteq> StartGame \<and> x \<noteq> RoomState ''disconnected''"
    by simp_all
  from Cons.prems(1) e have "AfterStartRpc \<notin> set (inflight (step e sys))"
    and "score (bar (step e sys)) = score (bar sys)"
    by (rule no_start_step)+
  with Cons.IH [OF _ es] show ?case by simp
qed

lemma stopGame_ok:
  assumes "\<not> isLoading s" and "find_agent ps = Some a"
  shows "stopGame ps (Resolved r) s =
    \<lparr>bar_of = s\<lparr>gameStarted := False\<rparr>,
     effects = [PerformRpc \<lparr>destinationIdentity = identity a, rpc_method = ''stop_game'',
                            payload = []\<rparr>],
     completion_of = Returned\<rparr>"
proof -
  have "s\<lparr>isLoading := True, gameStarted := False, isLoading := False\<rparr> =
      s\<lparr>gameStarted := False\<rparr>"
    using assms(1) by (cases s) simp
  then show ?thesis
    by (simp add: stopGame_def complete_def handleStopGame_dispatch [OF assms] resume_def
        finally_block_def)
qed

text \<open>
  C9, as stated, fails in its last part: after a stop call the score is reset to zero
  not only by the next start call. The effect on \<open>room.state\<close> (\<open>Reset game state when
  room disconnects\<close>) sets it to \<open>{correct: 0, total: 0}\<close> as soon as the room is
  disconnected. In the example a game with the score 2 of 3 is stopped, which keeps the
  score; then the room disconnects, and the score is 0 of 0 though no start call has
  been made: the only remote call of the whole run is \<open>stop_game\<close>.
\<close>

theorem stop_then_disconnect_counterexample:
  "score (bar example_scored) = \<lparr>correct = 2, total = 3\<rparr> \<and>
   score (bar (run [StopGame, RpcSettled (Resolved [])] example_scored)) =
     \<lparr>correct = 2, total = 3\<rparr> \<and>
   score (bar (run [StopGame, RpcSettled (Resolved []), RoomState ''disconnected'']
                 example_scored)) = \<lparr>correct = 0, total = 0\<rparr> \<and>
   trace (run [StopGame, RpcSettled (Resolved []), RoomState ''disconnected'']
            example_scored) =
     [PerformRpc \<lparr>destinationIdentity = ''agent-AJ_x'', rpc_method = ''stop_game'',
                  payload = []\<rparr>]"
  by (simp add: example_scored_def handleStopGame_def find_agent_def example_agent_def
      absorb_def resume_def finally_block_def room_state_effect_def Let_def)

text \<open>
  C9, amended. A stop call that succeeds (made with the busy flag clear in a room with an
  agent, its remote call resolved) returns the state it found with \<open>gameStarted\<close> set to
  \<open>false\<close> and nothing else changed: the score, the selected language and the busy flag
  are as before the call; its one effect is the \<open>stop_game\<close> call. The score then keeps
  the value it had before the stop call through every sequence of further events that
  contains neither a start call nor the disconnection of the room (other changes of the
  room state, stop calls, settlements, language selections and changes of the
  participants leave it alone). The disconnection of the room after the stop call
  resets the score to \<open>{correct: 0, total: 0}\<close>, with no start call.
\<close>

theorem stop_keeps_score:
  assumes "\<not> isLoading (bar sys)" and "inflight sys = []"
    and "find_agent (remoteParticipants sys) = Some a"
  shows "stopGame (remoteParticipants sys) (Resolved r) (bar sys) =
           \<lparr>bar_of = (bar sys)\<lparr>gameStarted := False\<rparr>,
            effects = [PerformRpc \<lparr>destinationIdentity = identity a,
                                   rpc_method = ''stop_game'', payload = []\<rparr>],
            completion_of = Returned\<rparr> \<and>
         bar (run [StopGame, RpcSettled (Resolved r)] sys) = (bar sys)\<lparr>gameStarted := False\<rparr> \<and>
         ((\<forall>e \<in> set es. e \<noteq> StartGame \<and> e \<noteq> RoomState ''disconnected'') \<longrightarrow>
            score (bar (run (StopGame # RpcSettled (Resolved r) # es) sys)) = score (bar sys)) \<and>
         (roomState sys \<noteq> ''disconnected'' \<longrightarrow>
            score (bar (run [StopGame, RpcSettled (Resolved r), RoomState ''disconnected''] sys)) =
              \<lparr>correct = 0, total = 0\<rparr>)"
proof -
  have whole: "stopGame (remoteParticipants sys) (Resolved r) (bar sys) =
           \<lparr>bar_of = (bar sys)\<lparr>gameStarted := False\<rparr>,
            effects = [PerformRpc \<lparr>destinationIdentity = identity a,
                                   rpc_method = ''stop_game'', payload = []\<rparr>],
            completion_of = Returned\<rparr>"
    using assms(1,3) by (rule stopGame_ok)
  have cells: "(bar sys)\<lparr>isLoading := True, gameStarted := False, isLoading := False\<rparr> =
      (bar sys)\<lparr>gameStarted := False\<rparr>"
    using assms(1) by (cases "bar sys") simp
  have two: "bar (run [StopGame, RpcSettled (Resolved r)] sys) = (bar sys)\<lparr>gameStarted := False\<rparr>"
    and none: "inflight (run [StopGame, RpcSettled (Resolved r)] sys) = []"
    using cells
    by (simp_all add: handleStopGame_dispatch [OF assms(1,3)] assms(2) absorb_def resume_def
        finally_block_def)
  have rest: "score (bar (run (StopGame # RpcSettled (Resolved r) # es) sys)) =
      score (bar sys)"
    if later: "\<forall>e \<in> set es. e \<noteq> StartGame \<and> e \<noteq> RoomState ''disconnected''"
  proof -
    have "score (bar (run es (run [StopGame, RpcSettled (Resolved r)] sys))) =
        score (bar (run [StopGame, RpcSettled (Resolved r)] sys))"
      using none later by (intro no_start_run) simp_all
    then show ?thesis by (simp add: two [simplified])
  qed
  have state: "roomState (run [StopGame, RpcSettled (Resolved r)] sys) = roomState sys"
    by (simp add: handleStopGame_dispatch [OF assms(1,3)] assms(2) absorb_def)
  have gone: "score (bar (run [StopGame, RpcSettled (Resolved r), RoomState ''disconnected''] sys)) =
      \<lparr>correct = 0, total = 0\<rparr>"
    if connected: "roomState sys \<noteq> ''disconnected''"
  proof -
    have "run [StopGame, RpcSettled (Resolved r), RoomState ''disconnected''] sys =
        step (RoomState ''disconnected'') (run [StopGame, RpcSettled (Resolved r)] sys)"
      by simp
    with state connected show ?thesis
      by (auto simp: room_state_effect_def simp del: run.simps)
  qed
  from whole two rest gone show ?thesis by blast
qed

theorem stop_keeps_score_witness:
  "\<not> isLoading (bar example_scored) \<and> inflight example_scored = [] \<and>
   find_agent (remoteParticipants example_scored) = Some example_agent \<and>
   roomState example_scored = ''connected'' \<and>
   list_all (\<lambda>e. e \<noteq> StartGame \<and> e \<noteq> RoomState ''disconnected'')
     [SelectLanguage ''German'', RoomState ''reconnecting'', StopGame,
      RpcSettled (Rejected ''gone'')] \<and>
   bar (run [StopGame, RpcSettled (Resolved [])] example_scored) =
     \<lparr>isLoading = False, gameStarted = False, selectedLanguage = ''French'',
      score = \<lparr>correct = 2, total = 3\<rparr>\<rparr> \<and>
   score (bar (run [StopGame, RpcSettled (Resolved []), SelectLanguage ''German'',
                    RoomState ''reconnecting'', StopGame,
                    RpcSettled (Rejected ''gone'')] example_scored)) =
     \<lparr>correct = 2, total = 3\<rparr> \<and>
   score (bar (run [StopGame, RpcSettled (Resolved []), RoomState ''disconnected'']
                 example_scored)) = \<lparr>correct = 0, total = 0\<rparr>"
proof -
  have idle: "\<not> isLoading (bar example_scored)"
    and none: "inflight example_scored = []"
    and sc: "bar example_scored =
      \<lparr>isLoading = False, gameStarted = True, selectedLanguage = ''French'',
       score = \<lparr>correct = 2, total = 3\<rparr>\<rparr>"
    by (simp_all add: example_scored_def)
  have agent: "find_agent (remoteParticipants example_scored) = Some example_agent"
    by (simp add: example_scored_def find_agent_def example_agent_def)
  have room: "roomState example_scored = ''connected''"
    by (simp add: example_scored_def)
  have es: "\<forall>e \<in> set [SelectLanguage ''German'', RoomState ''reconnecting'', StopGame,
        RpcSettled (Rejected ''gone'')].
      e \<noteq> StartGame \<and> e \<noteq> RoomState ''disconnected''"
    by simp
  show ?thesis
    using idle none agent room es
      stop_keeps_score [OF idle none agent, of "[]"
        "[SelectLanguage ''German'', RoomState ''reconnecting'', StopGame,
          RpcSettled (Rejected ''gone'')]"]
    by (simp add: sc del: run.simps)
qed

subsection \<open>The language before any selection\<close>

lemma language_resume: "selectedLanguage (bar_of (resume k r s)) = selectedLanguage s"
  by (cases k; cases r) (simp_all add: resume_def finally_block_def)

lemma language_step:
  assumes "\<not> is_SelectLanguage e"
  shows "selectedLanguage (bar (step e sys)) = selectedLanguage (bar sys)"
proof (cases e)
  case StartGame
  then show ?thesis
    by (cases "find_agent (remoteParticipants sys)")
       (simp_all add: absorb_def handleStartGame_def finally_block_def)
next
  case StopGame
  then show ?thesis
    by (cases "find_agent (remoteParticipants sys)")
       (simp_all add: absorb_def handleStopGame_def finally_block_def)
next
  case (SelectLanguage x)
  with assms show ?thesis by simp
next
  case (RpcSettled r)
  then show ?thesis
    by (cases "inflight sys") (simp_all add: absorb_def language_resume)
next
  case (RoomState st)
  then show ?thesis by (simp add: room_state_effect_def)
next
  case (Participants ps)
  then show ?thesis by simp
qed

lemma language_run:
  "\<forall>e \<in> set es. \<not> is_SelectLanguage e \<Longrightarrow>
     selectedLanguage (bar (run es sys)) = selectedLanguage (bar sys)"
  by (induction es arbitrary: sys) (simp_all add: language_step)

lemma language_mount: "selectedLanguage (bar (mount st ps)) = ''Portuguese''"
  by (simp add: mount_def room_state_effect_def initial_bar_def)

lemma example_sessions_eq:
  "run (example_session_one @ example_session_two) (mount ''disconnected'' []) =
    \<lparr>bar = \<lparr>isLoading = False, gameStarted = False, selectedLanguage = ''French'',
            score = \<lparr>correct = 0, total = 0\<rparr>\<rparr>,
     roomState = ''connected'', remoteParticipants = [example_agent], inflight = [],
     trace = [PerformRpc \<lparr>destinationIdentity = ''agent-AJ_x'', rpc_method = ''start_game'',
                          payload = ''French''\<rparr>,
              PerformRpc \<lparr>destinationIdentity = ''agent-AJ_x'', rpc_method = ''stop_game'',
                          payload = []\<rparr>]\<rparr>"
  by (simp add: example_session_one_def example_session_two_def mount_def
      room_state_effect_def initial_bar_def selectLanguage_def handleStartGame_def
      handleStopGame_def find_agent_def absorb_def example_agent_def Let_def resume_def
      finally_block_def)

text \<open>
  C10, as stated, fails from the second session on. The control bar stays mounted when
  a session ends, and the effect on \<open>room.state\<close> resets the started flag and the score,
  not the language. In the example the user selects French in a first session, which
  ends with the room disconnected; in the second session no language is selected, the
  selected language is French, and a start call dispatches the payload \<open>French\<close>. Every
  event of the example passes the rendered controls.
\<close>

theorem language_kept_across_sessions_counterexample:
  "list_all (\<lambda>e. \<not> is_SelectLanguage e) example_session_two \<and>
   roomState (run example_session_one (mount ''disconnected'' [])) = ''disconnected'' \<and>
   ui_run (example_session_one @ example_session_two) (mount ''disconnected'' []) =
     run (example_session_one @ example_session_two) (mount ''disconnected'' []) \<and>
   selectedLanguage
     (bar (run (example_session_one @ example_session_two) (mount ''disconnected'' []))) =
     ''French'' \<and>
   effects (handleStartGame
     (remoteParticipants
        (run (example_session_one @ example_session_two) (mount ''disconnected'' [])))
     (bar (run (example_session_one @ example_session_two) (mount ''disconnected'' [])))) =
     [PerformRpc \<lparr>destinationIdentity = ''agent-AJ_x'', rpc_method = ''start_game'',
                  payload = ''French''\<rparr>]"
proof -
  have two: "list_all (\<lambda>e. \<not> is_SelectLanguage e) example_session_two"
    by (simp add: example_session_two_def)
  have one: "roomState (run example_session_one (mount ''disconnected'' [])) = ''disconnected''"
    by (simp add: example_session_one_def mount_def room_state_effect_def initial_bar_def
        selectLanguage_def handleStartGame_def handleStopGame_def find_agent_def absorb_def
        example_agent_def Let_def resume_def finally_block_def)
  have ui: "ui_run (example_session_one @ example_session_two) (mount ''disconnected'' []) =
      run (example_session_one @ example_session_two) (mount ''disconnected'' [])"
    by (simp add: example_session_one_def example_session_two_def mount_def ui_step_def
        room_state_effect_def initial_bar_def selectLanguage_def handleStartGame_def
        handleStopGame_def find_agent_def absorb_def example_agent_def Let_def resume_def
        finally_block_def LANGUAGES_def)
  have start: "effects (handleStartGame
     (remoteParticipants
        (run (example_session_one @ example_session_two) (mount ''disconnected'' [])))
     (bar (run (example_session_one @ example_session_two) (mount ''disconnected'' [])))) =
     [PerformRpc \<lparr>destinationIdentity = ''agent-AJ_x'', rpc_method = ''start_game'',
                  payload = ''French''\<rparr>]"
    by (simp add: example_sessions_eq handleStartGame_def find_agent_def example_agent_def)
  have lang: "selectedLanguage
     (bar (run (example_session_one @ example_session_two) (mount ''disconnected'' []))) =
     ''French''"
    by (simp add: example_sessions_eq)
  from two one ui start lang show ?thesis by blast
qed

text \<open>
  C10, amended. The selected language of the mounted control bar is \<open>Portuguese\<close>, and it
  stays \<open>Portuguese\<close> through every sequence of events without a language selection,
  whatever else happens (start and stop calls, settlements, changes of the room state
  and of the participants). A start call made then, with the busy flag clear in a room
  with an agent, dispatches one \<open>start_game\<close> call whose payload is exactly
  \<open>Portuguese\<close>. So the default holds until the first selection since the control bar was
  mounted; it is not restored when a session ends.
\<close>

theorem language_default:
  assumes "\<forall>e \<in> set es. \<not> is_SelectLanguage e"
  shows "selectedLanguage initial_bar = ''Portuguese'' \<and>
         selectedLanguage (bar (run es (mount st ps))) = ''Portuguese'' \<and>
         (\<not> isLoading (bar (run es (mount st ps))) \<and>
          find_agent (remoteParticipants (run es (mount st ps))) = Some a \<longrightarrow>
            effects (handleStartGame (remoteParticipants (run es (mount st ps)))
                       (bar (run es (mount st ps)))) =
              [PerformRpc \<lparr>destinationIdentity = identity a, rpc_method = ''start_game'',
                           payload = ''Portuguese''\<rparr>])"
proof -
  have lang: "selectedLanguage (bar (run es (mount st ps))) = ''Portuguese''"
    using language_run [OF assms] language_mount by simp
  have "selectedLanguage initial_bar = ''Portuguese''"
    by (simp add: initial_bar_def)
  moreover have "effects (handleStartGame (remoteParticipants (run es (mount st ps)))
                       (bar (run es (mount st ps)))) =
              [PerformRpc \<lparr>destinationIdentity = identity a, rpc_method = ''start_game'',
                           payload = ''Portuguese''\<rparr>]"
    if "\<not> isLoading (bar (run es (mount st ps)))"
      and "find_agent (remoteParticipants (run es (mount st ps))) = Some a"
    using handleStartGame_dispatch [OF that] lang by simp
  ultimately show ?thesis using lang by blast
qed

theorem language_default_witness:
  "list_all (\<lambda>e. \<not> is_SelectLanguage e) example_session_two \<and>
   \<not> isLoading (bar (run example_session_two (mount ''disconnected'' []))) \<and>
   find_agent (remoteParticipants (run example_session_two (mount ''disconnected'' []))) =
     Some example_agent \<and>
   effects (handleStartGame
     (remoteParticipants (run example_session_two (mount ''disconnected'' [])))
     (bar (run example_session_two (mount ''disconnected'' [])))) =
     [PerformRpc \<lparr>destinationIdentity = ''agent-AJ_x'', rpc_method = ''start_game'',
                  payload = ''Portuguese''\<rparr>]"
proof -
  have two: "\<forall>e \<in> set example_session_two. \<not> is_SelectLanguage e"
    by (simp add: example_session_two_def)
  have two': "list_all (\<lambda>e. \<not> is_SelectLanguage e) example_session_two"
    by (simp add: example_session_two_def)
  have state: "run example_session_two (mount ''disconnected'' []) =
    \<lparr>bar = initial_bar, roomState = ''connected'', remoteParticipants = [example_agent],
     inflight = [], trace = []\<rparr>"
    by (simp add: example_session_two_def mount_def room_state_effect_def initial_bar_def)
  have idle: "\<not> isLoading (bar (run example_session_two (mount ''disconnected'' [])))"
    by (simp add: state initial_bar_def)
  have agent: "find_agent (remoteParticipants
      (run example_session_two (mount ''disconnected'' []))) = Some example_agent"
    by (simp add: state find_agent_def example_agent_def)
  have name: "identity example_agent = ''agent-AJ_x''"
    by (simp add: example_agent_def)
  show ?thesis
    using two' idle agent name
      language_default [OF two, of "''disconnected''" "[]" example_agent]
    by simp
qed

section \<open>Properties of the session view\<close>

subsection \<open>Helper lemmas\<close>

lemma in_sync_cases:
  assumes "in_sync v"
  obtains (unarmed) "timers v = []"
  | (armed) t where "timers v = [t]" "sessionStarted v" "cleanup v = Some (timer_id t)"
      "captured t = agentState v" "0 < remaining t" "remaining t \<le> LIVENESS_MS"
  using assms by (auto simp: in_sync_def split: list.splits)

text \<open>
  A run of the effect in a view whose armed timers are the one of the last run: that
  timer is cleared, and a new one is armed if the session is started.
\<close>

lemma run_effect_timers:
  assumes "timers v = [] \<or> (\<exists>t. timers v = [t] \<and> cleanup v = Some (timer_id t))"
  shows "timers (run_effect v) =
           (if sessionStarted v
            then [\<lparr>timer_id = next_timer v, remaining = LIVENESS_MS, captured = agentState v\<rparr>]
            else [])"
    and "in_sync (run_effect v)"
    and "sessionStarted (run_effect v) = sessionStarted v"
    and "agentState (run_effect v) = agentState v"
  using assms
  by (auto simp: run_effect_def clearTimeout_def in_sync_def LIVENESS_MS_def Let_def
      split: option.splits)

lemma in_sync_mount: "in_sync (view_mount started a)"
  by (simp add: view_mount_def run_effect_timers(2))

lemma in_sync_armed_or_not:
  assumes "in_sync v"
  shows "timers v = [] \<or> (\<exists>t. timers v = [t] \<and> cleanup v = Some (timer_id t))"
  using assms by (cases rule: in_sync_cases) simp_all

lemma in_sync_elapse:
  assumes "in_sync v"
  shows "in_sync (fst (elapse n v))"
  using assms
  by (cases rule: in_sync_cases) (auto simp: elapse_def in_sync_def)

lemma in_sync_step:
  assumes "in_sync v"
  shows "in_sync (fst (view_step e v))"
proof (cases e)
  case (SetSessionStarted b)
  have rerun: "in_sync (run_effect (v\<lparr>sessionStarted := b\<rparr>))"
    using in_sync_armed_or_not [OF assms] by (intro run_effect_timers(2)) simp
  show ?thesis
  proof (cases "b = sessionStarted v")
    case True
    with assms show ?thesis unfolding SetSessionStarted by simp
  next
    case False
    with rerun show ?thesis unfolding SetSessionStarted by simp
  qed
next
  case (AgentStateChanged a)
  have rerun: "in_sync (run_effect (v\<lparr>agentState := a\<rparr>))"
    using in_sync_armed_or_not [OF assms] by (intro run_effect_timers(2)) simp
  show ?thesis
  proof (cases "a = agentState v")
    case True
    with assms show ?thesis unfolding AgentStateChanged by simp
  next
    case False
    with rerun show ?thesis unfolding AgentStateChanged by simp
  qed
next
  case (Elapse n)
  with assms show ?thesis by (simp add: in_sync_elapse)
next
  case Unmount
  from assms show ?thesis
    by (cases rule: in_sync_cases) (simp_all add: Unmount in_sync_def clearTimeout_def
        split: option.splits)
qed

lemma view_run_Cons:
  "view_run (e # es) v =
     (fst (view_run es (fst (view_step e v))),
      snd (view_step e v) @ snd (view_run es (fst (view_step e v))))"
  by (simp add: case_prod_beta)

lemma in_sync_run: "in_sync v \<Longrightarrow> in_sync (fst (view_run es v))"
proof (induction es arbitrary: v)
  case Nil
  then show ?case by simp
next
  case (Cons e es)
  from Cons.prems have "in_sync (fst (view_step e v))" by (rule in_sync_step)
  then have "in_sync (fst (view_run es (fst (view_step e v))))" by (rule Cons.IH)
  then show ?case by (simp only: view_run_Cons fst_conv)
qed

text \<open>Time that passes in pieces: an armed timer fires once the pieces add up to its delay.\<close>

lemma elapse_unarmed:
  "timers v = [] \<Longrightarrow> snd (view_run (map Elapse ns) v) = []"
proof (induction ns arbitrary: v)
  case Nil
  then show ?case by simp
next
  case (Cons n ns)
  from Cons.prems have "timers (fst (elapse n v)) = []" and "snd (elapse n v) = []"
    by (simp_all add: elapse_def)
  with Cons.IH [of "fst (elapse n v)"] show ?case
    by (simp add: view_run_Cons del: view_run.simps)
qed

lemma elapse_armed:
  assumes "timers v = [t]" and "0 < remaining t"
  shows "snd (view_run (map Elapse ns) v) =
           (if remaining t \<le> sum_list ns then timeout_callback (captured t) else [])"
  using assms
proof (induction ns arbitrary: v t)
  case Nil
  then show ?case by simp
next
  case (Cons n ns)
  show ?case
  proof (cases "remaining t \<le> n")
    case True
    with Cons.prems have "timers (fst (elapse n v)) = []"
      and "snd (elapse n v) = timeout_callback (captured t)"
      by (simp_all add: elapse_def)
    with True elapse_unarmed [of "fst (elapse n v)" ns] show ?thesis
      by (simp add: view_run_Cons del: view_run.simps)
  next
    case False
    with Cons.prems have later: "timers (fst (elapse n v)) = [t\<lparr>remaining := remaining t - n\<rparr>]"
      and quiet: "snd (elapse n v) = []"
      by (simp_all add: elapse_def)
    from False have left: "0 < remaining (t\<lparr>remaining := remaining t - n\<rparr>)" by simp
    from False have "(remaining t \<le> n + sum_list ns) = (remaining t - n \<le> sum_list ns)"
      by arith
    with Cons.IH [OF later left] quiet show ?thesis
      by (simp add: view_run_Cons del: view_run.simps)
  qed
qed

lemma callback_connecting:
  "timeout_callback ''connecting'' =
     [ToastAlert ''Session ended'' ''Agent did not join the room. '', RoomDisconnect]"
  by (simp add: timeout_callback_def isAgentAvailable_def)

lemma callback_available: "isAgentAvailable a \<Longrightarrow> timeout_callback a = []"
  by (simp add: timeout_callback_def)

lemma rearmed_then_elapse:
  assumes "in_sync v" and "sessionStarted v'" and "agentState v' = a"
    and "timers v' = timers v" and "cleanup v' = cleanup v"
  shows "snd (view_run (map Elapse ns) (run_effect v')) =
           (if LIVENESS_MS \<le> sum_list ns then timeout_callback a else [])"
proof -
  have "timers v' = [] \<or> (\<exists>t. timers v' = [t] \<and> cleanup v' = Some (timer_id t))"
    using in_sync_armed_or_not [OF assms(1)] assms(4,5) by simp
  then have "timers (run_effect v') =
      [\<lparr>timer_id = next_timer v', remaining = LIVENESS_MS, captured = a\<rparr>]"
    using assms(2,3) by (simp add: run_effect_timers(1))
  from elapse_armed [OF this] show ?thesis by (simp add: LIVENESS_MS_def)
qed

subsection \<open>The liveness timeout\<close>

text \<open>
  C4. Take any view whose armed timer, if there is one, is the one of the last run of
  the effect. If the session starts while the agent state is \<open>connecting\<close>, or the agent
  state becomes \<open>connecting\<close> during the session, and time then passes with no other event,
  nothing happens before 20000 ms have passed, and when they have, the timer fires: the
  toast \<open>Session ended\<close> is shown with the reason \<open>Agent did not join the room.\<close> and
  \<open>room.disconnect()\<close> is called. If the agent state is \<open>listening\<close>, \<open>thinking\<close> or
  \<open>speaking\<close>, then however much time passes, a timer that fires does nothing: no toast,
  no disconnect.
\<close>

theorem liveness_timeout:
  assumes "in_sync v"
  shows "(\<not> sessionStarted v \<and> agentState v = ''connecting'' \<longrightarrow>
            snd (view_run (SetSessionStarted True # map Elapse ns) v) =
              (if 20000 \<le> sum_list ns
               then [ToastAlert ''Session ended'' ''Agent did not join the room. '',
                     RoomDisconnect]
               else [])) \<and>
         (sessionStarted v \<and> agentState v \<noteq> ''connecting'' \<longrightarrow>
            snd (view_run (AgentStateChanged ''connecting'' # map Elapse ns) v) =
              (if 20000 \<le> sum_list ns
               then [ToastAlert ''Session ended'' ''Agent did not join the room. '',
                     RoomDisconnect]
               else [])) \<and>
         (isAgentAvailable (agentState v) \<longrightarrow> snd (view_run (map Elapse ns) v) = [])"
proof (intro conjI impI)
  assume h: "\<not> sessionStarted v \<and> agentState v = ''connecting''"
  have "snd (view_run (map Elapse ns) (run_effect (v\<lparr>sessionStarted := True\<rparr>))) =
      (if LIVENESS_MS \<le> sum_list ns then timeout_callback ''connecting'' else [])"
    using assms h by (intro rearmed_then_elapse) simp_all
  with h show "snd (view_run (SetSessionStarted True # map Elapse ns) v) =
      (if 20000 \<le> sum_list ns
       then [ToastAlert ''Session ended'' ''Agent did not join the room. '', RoomDisconnect]
       else [])"
    by (simp add: view_run_Cons callback_connecting LIVENESS_MS_def del: view_run.simps)
next
  assume h: "sessionStarted v \<and> agentState v \<noteq> ''connecting''"
  then have changed: "''connecting'' \<noteq> agentState v" by auto
  have "snd (view_run (map Elapse ns) (run_effect (v\<lparr>agentState := ''connecting''\<rparr>))) =
      (if LIVENESS_MS \<le> sum_list ns then timeout_callback ''connecting'' else [])"
    using assms h by (intro rearmed_then_elapse) simp_all
  with changed show "snd (view_run (AgentStateChanged ''connecting'' # map Elapse ns) v) =
      (if 20000 \<le> sum_list ns
       then [ToastAlert ''Session ended'' ''Agent did not join the room. '', RoomDisconnect]
       else [])"
    by (simp add: view_run_Cons callback_connecting LIVENESS_MS_def del: view_run.simps)
next
  assume h: "isAgentAvailable (agentState v)"
  from assms show "snd (view_run (map Elapse ns) v) = []"
  proof (cases rule: in_sync_cases)
    case unarmed
    then show ?thesis by (rule elapse_unarmed)
  next
    case (armed t)
    with h have "timeout_callback (captured t) = []" by (simp add: callback_available)
    with elapse_armed [OF armed(1,5)] show ?thesis by simp
  qed
qed

lemma example_waiting_eq:
  "example_waiting =
    \<lparr>sessionStarted = True, agentState = ''connecting'',
     timers = [\<lparr>timer_id = 0, remaining = 5000, captured = ''connecting''\<rparr>],
     next_timer = 1, cleanup = Some 0\<rparr>"
  by (simp add: example_waiting_def view_mount_def run_effect_def elapse_def LIVENESS_MS_def)

lemma example_listening_eq:
  "example_listening =
    \<lparr>sessionStarted = True, agentState = ''listening'',
     timers = [\<lparr>timer_id = 1, remaining = 20000, captured = ''listening''\<rparr>],
     next_timer = 2, cleanup = Some 1\<rparr>"
  by (simp add: example_listening_def view_mount_def run_effect_def elapse_def
      clearTimeout_def LIVENESS_MS_def)

theorem liveness_timeout_witness:
  "in_sync (view_mount False ''connecting'') \<and>
   \<not> sessionStarted (view_mount False ''connecting'') \<and>
   agentState (view_mount False ''connecting'') = ''connecting'' \<and>
   snd (view_run (SetSessionStarted True # map Elapse [5000, 14999])
          (view_mount False ''connecting'')) = [] \<and>
   snd (view_run (SetSessionStarted True # map Elapse [5000, 15000])
          (view_mount False ''connecting'')) =
     [ToastAlert ''Session ended'' ''Agent did not join the room. '', RoomDisconnect] \<and>
   in_sync example_listening \<and>
   isAgentAvailable (agentState example_listening) \<and>
   snd (view_run (map Elapse [15000, 100000]) example_listening) = []"
proof -
  have sync: "in_sync (view_mount False ''connecting'')"
    by (rule in_sync_mount)
  have idle: "\<not> sessionStarted (view_mount False ''connecting'')"
    and connecting: "agentState (view_mount False ''connecting'') = ''connecting''"
    by (simp_all add: view_mount_def run_effect_def)
  have sync': "in_sync example_listening"
    by (simp add: example_listening_eq in_sync_def LIVENESS_MS_def)
  have available: "isAgentAvailable (agentState example_listening)"
    by (simp add: example_listening_eq isAgentAvailable_def)
  have early: "snd (view_run (SetSessionStarted True # map Elapse [5000, 14999])
          (view_mount False ''connecting'')) = []"
    using idle connecting liveness_timeout [OF sync, of "[5000, 14999]"] by simp
  have due: "snd (view_run (SetSessionStarted True # map Elapse [5000, 15000])
          (view_mount False ''connecting'')) =
     [ToastAlert ''Session ended'' ''Agent did not join the room. '', RoomDisconnect]"
    using idle connecting liveness_timeout [OF sync, of "[5000, 15000]"] by simp
  have inert: "snd (view_run (map Elapse [15000, 100000]) example_listening) = []"
    using available liveness_timeout [OF sync', of "[15000, 100000]"] by blast
  from sync idle connecting early due sync' available inert show ?thesis by blast
qed

subsection \<open>How often the timer is armed\<close>

text \<open>
  C5, as stated, fails: the effect that arms the timer has \<open>agentState\<close> among its
  dependencies, so every change of the agent state during the session clears the armed
  timer and arms a new one with the full delay. In the example the session starts with
  the agent state \<open>connecting\<close>; after 15000 ms the agent state becomes \<open>initializing\<close>;
  19999 ms later, 34999 ms after the start of the session, the agent has never been
  available and nothing has fired: the armed timer is the second one of the session and
  has 1 ms left.
\<close>

theorem rearmed_on_agent_state_counterexample:
  "\<not> isAgentAvailable ''connecting'' \<and> \<not> isAgentAvailable ''initializing'' \<and>
   timers (fst (view_step (SetSessionStarted True) (view_mount False ''connecting''))) =
     [\<lparr>timer_id = 0, remaining = 20000, captured = ''connecting''\<rparr>] \<and>
   timers example_waiting = [\<lparr>timer_id = 0, remaining = 5000, captured = ''connecting''\<rparr>] \<and>
   timers (fst (view_step (AgentStateChanged ''initializing'') example_waiting)) =
     [\<lparr>timer_id = 1, remaining = 20000, captured = ''initializing''\<rparr>] \<and>
   view_run [SetSessionStarted True, Elapse 15000, AgentStateChanged ''initializing'',
             Elapse 19999] (view_mount False ''connecting'') =
     (\<lparr>sessionStarted = True, agentState = ''initializing'',
       timers = [\<lparr>timer_id = 1, remaining = 1, captured = ''initializing''\<rparr>],
       next_timer = 2, cleanup = Some 1\<rparr>, [])"
  by (simp add: example_waiting_eq isAgentAvailable_def view_mount_def run_effect_def
      elapse_def clearTimeout_def LIVENESS_MS_def)

text \<open>
  C5, amended. At any time at most one liveness timeout is armed: this holds in every
  state that a sequence of events reaches from a view whose armed timer, if any, is the
  one of the last run of the effect (the mounted view is such a view). The timeout is
  armed with the full 20000 ms when the session starts; every change of the agent state
  during the session cancels it and arms a new one with the full 20000 ms, which
  captures the new agent state; the end of the session and the unmounting of the view
  cancel it.
\<close>

theorem liveness_timer_rearmed:
  assumes "in_sync v"
  shows "length (timers (fst (view_run es v))) \<le> 1 \<and>
         (\<not> sessionStarted v \<longrightarrow>
            timers (fst (view_step (SetSessionStarted True) v)) =
              [\<lparr>timer_id = next_timer v, remaining = 20000, captured = agentState v\<rparr>]) \<and>
         (sessionStarted v \<and> a \<noteq> agentState v \<longrightarrow>
            timers (fst (view_step (AgentStateChanged a) v)) =
              [\<lparr>timer_id = next_timer v, remaining = 20000, captured = a\<rparr>]) \<and>
         timers (fst (view_step (SetSessionStarted False) v)) = [] \<and>
         timers (fst (view_step Unmount v)) = []"
proof (intro conjI impI)
  from assms have "in_sync (fst (view_run es v))" by (rule in_sync_run)
  then show "length (timers (fst (view_run es v))) \<le> 1"
    by (cases rule: in_sync_cases) simp_all
next
  assume "\<not> sessionStarted v"
  moreover have "timers (run_effect (v\<lparr>sessionStarted := True\<rparr>)) =
      [\<lparr>timer_id = next_timer v, remaining = LIVENESS_MS, captured = agentState v\<rparr>]"
    using in_sync_armed_or_not [OF assms]
      run_effect_timers(1) [of "v\<lparr>sessionStarted := True\<rparr>"] by simp
  ultimately show "timers (fst (view_step (SetSessionStarted True) v)) =
      [\<lparr>timer_id = next_timer v, remaining = 20000, captured = agentState v\<rparr>]"
    by (simp add: LIVENESS_MS_def)
next
  assume "sessionStarted v \<and> a \<noteq> agentState v"
  moreover have "sessionStarted v \<Longrightarrow> timers (run_effect (v\<lparr>agentState := a\<rparr>)) =
      [\<lparr>timer_id = next_timer v, remaining = LIVENESS_MS, captured = a\<rparr>]"
    using in_sync_armed_or_not [OF assms]
      run_effect_timers(1) [of "v\<lparr>agentState := a\<rparr>"] by simp
  ultimately show "timers (fst (view_step (AgentStateChanged a) v)) =
      [\<lparr>timer_id = next_timer v, remaining = 20000, captured = a\<rparr>]"
    by (simp add: LIVENESS_MS_def)
next
  show "timers (fst (view_step (SetSessionStarted False) v)) = []"
  proof (cases "sessionStarted v")
    case True
    have "timers (run_effect (v\<lparr>sessionStarted := False\<rparr>)) = []"
      using in_sync_armed_or_not [OF assms]
        run_effect_timers(1) [of "v\<lparr>sessionStarted := False\<rparr>"] by simp
    with True show ?thesis by simp
  next
    case False
    from assms False have "timers v = []" by (cases rule: in_sync_cases) simp_all
    with False show ?thesis by simp
  qed
next
  from assms show "timers (fst (view_step Unmount v)) = []"
    by (cases rule: in_sync_cases) (simp_all add: clearTimeout_def split: option.splits)
qed

theorem liveness_timer_rearmed_witness:
  "in_sync example_waiting \<and> sessionStarted example_waiting \<and>
   ''initializing'' \<noteq> agentState example_waiting \<and>
   map remaining (timers example_waiting) = [5000] \<and>
   timers (fst (view_step (AgentStateChanged ''initializing'') example_waiting)) =
     [\<lparr>timer_id = 1, remaining = 20000, captured = ''initializing''\<rparr>] \<and>
   length (timers (fst (view_run [AgentStateChanged ''initializing'', Elapse 19999,
     AgentStateChanged ''connecting''] example_waiting))) \<le> 1"
proof -
  have sync: "in_sync example_waiting"
    by (simp add: example_waiting_eq in_sync_def LIVENESS_MS_def)
  have facts: "sessionStarted example_waiting"
    "''initializing'' \<noteq> agentState example_waiting"
    "map remaining (timers example_waiting) = [5000]"
    "next_timer example_waiting = 1"
    by (simp_all add: example_waiting_eq)
  show ?thesis
    using sync facts
      liveness_timer_rearmed [OF sync, of "[AgentStateChanged ''initializing'', Elapse 19999,
        AgentStateChanged ''connecting'']" "''initializing''"]
    by (simp del: view_run.simps view_step.simps)
qed

end
